theory Spec2Isabelle
  imports Main
begin

section \<open>The assistant bot: fields, records and the address book\<close>

text \<open>
  A shallow embedding of \<^verbatim>\<open>assistant_bot.py\<close>. A Python \<^verbatim>\<open>str\<close> is a
  sequence of code points; a \<^typ>\<open>char\<close> stands here for one code point below 256, so
  a \<^typ>\<open>string\<close> is a Python string of such code points and \<^const>\<open>length\<close> is
  Python's \<^verbatim>\<open>len\<close>. The records and the book hold such strings; the parse of a
  birthday is written for strings of any code points and used on these. Python's
  \<^verbatim>\<open>int\<close> is \<^typ>\<open>int\<close>. An exception is a value
  of type \<open>error\<close>, with the message the source gives it; a method that mutates its
  object returns the outcome together with the object as the call leaves it, also when
  it raises.
\<close>

subsection \<open>Exceptions\<close>

datatype error = ValueError string | KeyError | IndexError | OverflowError string

subsection \<open>Characters\<close>

definition code_point :: "char \<Rightarrow> nat" where
  "code_point c = of_char c"

definition in_range :: "char \<Rightarrow> char \<Rightarrow> char \<Rightarrow> bool" where
  \<comment> \<open>the character class \<^verbatim>\<open>[lo-hi]\<close>\<close>
  "in_range lo hi c = (code_point lo \<le> code_point c \<and> code_point c \<le> code_point hi)"

definition isdecimal_char :: "char \<Rightarrow> bool" where
  \<comment> \<open>\<^verbatim>\<open>\d\<close> of \<^verbatim>\<open>re\<close> and \<^verbatim>\<open>str.isdecimal\<close>: below 256 the decimal digits
      (category Nd) are \<^verbatim>\<open>0\<close> to \<^verbatim>\<open>9\<close>\<close>
  "isdecimal_char c = in_range (CHR ''0'') (CHR ''9'') c"

definition isdigit_char :: "char \<Rightarrow> bool" where
  \<comment> \<open>\<^verbatim>\<open>str.isdigit\<close> on one character: the decimal digits and the characters of
      numeric type Digit, which below 256 are the superscripts U+00B2, U+00B3 and U+00B9\<close>
  "isdigit_char c =
     (isdecimal_char c \<or> code_point c = 178 \<or> code_point c = 179 \<or> code_point c = 185)"

definition isdigit :: "string \<Rightarrow> bool" where
  \<comment> \<open>\<^verbatim>\<open>str.isdigit\<close>: at least one character, and every character a digit\<close>
  "isdigit s = (s \<noteq> [] \<and> list_all isdigit_char s)"

subsection \<open>Fields\<close>

text \<open>
  A \<^verbatim>\<open>Field\<close> object holds one attribute, \<^verbatim>\<open>value\<close>, and is modelled by it. The
  constructors of \<^verbatim>\<open>Phone\<close> and \<^verbatim>\<open>Birthday\<close> validate and raise
  \<^verbatim>\<open>ValueError\<close>; \<^verbatim>\<open>Name\<close> inherits the constructor of \<^verbatim>\<open>Field\<close>, which
  stores whatever it is given.
\<close>

definition Name :: "string \<Rightarrow> error + string" where
  "Name v = Inr v"

definition Phone :: "string \<Rightarrow> error + string" where
  "Phone v =
     (if \<not> isdigit v \<or> length v \<noteq> 10
      then Inl (ValueError ''Phone must be a 10-digit string'')
      else Inr v)"

subsection \<open>Dates of the datetime module\<close>

text \<open>
  \<^verbatim>\<open>datetime.date\<close> is the proleptic Gregorian calendar on the years 1 to 9999. Its
  constructor raises \<^verbatim>\<open>ValueError\<close> outside the calendar; adding a
  \<^verbatim>\<open>timedelta\<close> raises \<^verbatim>\<open>OverflowError\<close> when the result leaves it. The wording
  of the library's messages differs between versions and nothing below depends on it.
\<close>

record date =
  year :: int
  month :: int
  day :: int

definition is_leap :: "int \<Rightarrow> bool" where
  "is_leap y = (y mod 4 = 0 \<and> (y mod 100 \<noteq> 0 \<or> y mod 400 = 0))"

definition days_in_month :: "int \<Rightarrow> int \<Rightarrow> int" where
  "days_in_month y m =
     (if m = 2 then (if is_leap y then 29 else 28)
      else if m = 4 \<or> m = 6 \<or> m = 9 \<or> m = 11 then 30
      else 31)"

definition MINYEAR :: int where
  "MINYEAR = 1"

definition MAXYEAR :: int where
  "MAXYEAR = 9999"

definition date_new :: "int \<Rightarrow> int \<Rightarrow> int \<Rightarrow> error + date" where
  \<comment> \<open>\<^verbatim>\<open>datetime.date(y, m, d)\<close>\<close>
  "date_new y m d =
     (if \<not> (MINYEAR \<le> y \<and> y \<le> MAXYEAR) then Inl (ValueError ''year is out of range'')
      else if \<not> (1 \<le> m \<and> m \<le> 12) then Inl (ValueError ''month must be in 1..12'')
      else if \<not> (1 \<le> d \<and> d \<le> days_in_month y m)
        then Inl (ValueError ''day is out of range for month'')
      else Inr \<lparr>year = y, month = m, day = d\<rparr>)"

definition date_lt :: "date \<Rightarrow> date \<Rightarrow> bool" where
  \<comment> \<open>\<^verbatim>\<open>a < b\<close>: the dates compare as the triples (year, month, day)\<close>
  "date_lt a b =
     (year a < year b \<or> (year a = year b \<and>
       (month a < month b \<or> (month a = month b \<and> day a < day b))))"

definition date_le :: "date \<Rightarrow> date \<Rightarrow> bool" where
  "date_le a b = (date_lt a b \<or> a = b)"

definition days_before_year :: "int \<Rightarrow> int" where
  \<comment> \<open>the days before 1 January of year \<open>y\<close>\<close>
  "days_before_year y = (y - 1) * 365 + (y - 1) div 4 - (y - 1) div 100 + (y - 1) div 400"

fun days_before_month :: "int \<Rightarrow> nat \<Rightarrow> int" where
  \<comment> \<open>the days of year \<open>y\<close> before the first day of month \<open>Suc k\<close>\<close>
  "days_before_month y 0 = 0"
| "days_before_month y (Suc k) = days_before_month y k + days_in_month y (int (Suc k))"

definition toordinal :: "date \<Rightarrow> int" where
  \<comment> \<open>\<^verbatim>\<open>date.toordinal()\<close>: 1 January of year 1 is day 1\<close>
  "toordinal a = days_before_year (year a) + days_before_month (year a) (nat (month a - 1)) + day a"

definition weekday :: "date \<Rightarrow> int" where
  \<comment> \<open>\<^verbatim>\<open>date.weekday()\<close>: Monday is 0, Sunday is 6\<close>
  "weekday a = (toordinal a + 6) mod 7"

definition next_day :: "date \<Rightarrow> error + date" where
  \<comment> \<open>\<^verbatim>\<open>a + timedelta(days=1)\<close>\<close>
  "next_day a =
     (if day a < days_in_month (year a) (month a) then Inr (a\<lparr>day := day a + 1\<rparr>)
      else if month a < 12 then Inr (a\<lparr>month := month a + 1, day := 1\<rparr>)
      else if year a < MAXYEAR then Inr \<lparr>year = year a + 1, month = 1, day = 1\<rparr>
      else Inl (OverflowError ''date value out of range''))"

fun add_days :: "date \<Rightarrow> nat \<Rightarrow> error + date" where
  \<comment> \<open>\<^verbatim>\<open>a + timedelta(days=n)\<close> for \<open>n \<ge> 0\<close>: the date \<open>n\<close> days after \<open>a\<close>\<close>
  "add_days a 0 = Inr a"
| "add_days a (Suc n) = (case next_day a of Inl e \<Rightarrow> Inl e | Inr b \<Rightarrow> add_days b n)"

definition digit_char :: "int \<Rightarrow> char" where
  "digit_char n = char_of (48 + nat n)"

definition zero_pad2 :: "int \<Rightarrow> string" where
  "zero_pad2 n = [digit_char (n div 10 mod 10), digit_char (n mod 10)]"

definition zero_pad4 :: "int \<Rightarrow> string" where
  "zero_pad4 n = [digit_char (n div 1000 mod 10), digit_char (n div 100 mod 10),
                  digit_char (n div 10 mod 10), digit_char (n mod 10)]"

definition strftime :: "date \<Rightarrow> string" where
  \<comment> \<open>\<^verbatim>\<open>a.strftime("%d.%m.%Y")\<close>: day and month with two digits, the year with
      four (for a year below 1000 some C libraries write fewer digits)\<close>
  "strftime a = zero_pad2 (day a) @ ''.'' @ zero_pad2 (month a) @ ''.'' @ zero_pad4 (year a)"

subsection \<open>The pattern of \<^verbatim>\<open>strptime(value, "%d.%m.%Y")\<close>\<close>

text \<open>
  \<^verbatim>\<open>strptime\<close> turns the format into the regular expression
  \<^verbatim>\<open>(?P<d>3[0-1]|[1-2]\d|0[1-9]|[1-9]| [1-9])\.(?P<m>1[0-2]|0[1-9]|[1-9])\.(?P<Y>\d\d\d\d)\<close>,
  matches it at the start of the string with the backtracking matcher of \<^verbatim>\<open>re\<close>,
  raises \<^verbatim>\<open>ValueError\<close> when there is no match or when the match does not end where
  the string ends, converts the three groups with \<^verbatim>\<open>int\<close> and builds the date.

  The class \<^verbatim>\<open>\d\<close> and \<^verbatim>\<open>int\<close> take every decimal digit of Unicode, not only the
  ASCII ones, so the parse is written for strings of any code points: a list of natural
  numbers. Which code points are decimal digits, and of which value, is a table of the
  Unicode database and not of this program; it is a parameter, \<open>dec c = Some v\<close> for a
  decimal digit \<open>c\<close> of value \<open>v\<close>. The ranges and the literal characters of the pattern
  are ASCII. \<open>rmatch dec p s\<close> lists what is left of \<open>s\<close> after each way of matching
  \<open>p\<close> at its start, in the order in which the matcher tries them.
\<close>

type_synonym ustring = "nat list"

type_synonym decimal_table = "nat \<Rightarrow> nat option"

definition ustr :: "string \<Rightarrow> ustring" where
  \<comment> \<open>the code points of a string of the model\<close>
  "ustr s = map code_point s"

definition cp_in_range :: "char \<Rightarrow> char \<Rightarrow> nat \<Rightarrow> bool" where
  \<comment> \<open>the character class \<^verbatim>\<open>[lo-hi]\<close> on code points\<close>
  "cp_in_range lo hi x = (code_point lo \<le> x \<and> x \<le> code_point hi)"

definition is_decimal :: "decimal_table \<Rightarrow> nat \<Rightarrow> bool" where
  \<comment> \<open>the class \<^verbatim>\<open>\d\<close>\<close>
  "is_decimal dec x = (dec x \<noteq> None)"

datatype re = Lit char | Rng char char | Dec | Cat re re | Alt re re

fun rmatch :: "decimal_table \<Rightarrow> re \<Rightarrow> ustring \<Rightarrow> ustring list" where
  "rmatch dec (Lit c) s = (case s of [] \<Rightarrow> [] | x # r \<Rightarrow> if x = code_point c then [r] else [])"
| "rmatch dec (Rng lo hi) s =
     (case s of [] \<Rightarrow> [] | x # r \<Rightarrow> if cp_in_range lo hi x then [r] else [])"
| "rmatch dec Dec s = (case s of [] \<Rightarrow> [] | x # r \<Rightarrow> if is_decimal dec x then [r] else [])"
| "rmatch dec (Cat p q) s = concat (map (rmatch dec q) (rmatch dec p s))"
| "rmatch dec (Alt p q) s = rmatch dec p s @ rmatch dec q s"

definition re_d :: re where
  \<comment> \<open>\<^verbatim>\<open>3[0-1]|[1-2]\d|0[1-9]|[1-9]| [1-9]\<close>\<close>
  "re_d =
     Alt (Cat (Lit (CHR ''3'')) (Rng (CHR ''0'') (CHR ''1'')))
    (Alt (Cat (Rng (CHR ''1'') (CHR ''2'')) Dec)
    (Alt (Cat (Lit (CHR ''0'')) (Rng (CHR ''1'') (CHR ''9'')))
    (Alt (Rng (CHR ''1'') (CHR ''9''))
         (Cat (Lit (CHR '' '')) (Rng (CHR ''1'') (CHR ''9''))))))"

definition re_m :: re where
  \<comment> \<open>\<^verbatim>\<open>1[0-2]|0[1-9]|[1-9]\<close>\<close>
  "re_m =
     Alt (Cat (Lit (CHR ''1'')) (Rng (CHR ''0'') (CHR ''2'')))
    (Alt (Cat (Lit (CHR ''0'')) (Rng (CHR ''1'') (CHR ''9'')))
         (Rng (CHR ''1'') (CHR ''9'')))"

definition re_Y :: re where
  \<comment> \<open>\<^verbatim>\<open>\d\d\d\d\<close>\<close>
  "re_Y = Cat Dec (Cat Dec (Cat Dec Dec))"

definition consumed :: "ustring \<Rightarrow> ustring \<Rightarrow> ustring" where
  \<comment> \<open>the text of a group: what was read of \<open>s\<close> when \<open>r\<close> is left of it\<close>
  "consumed s r = take (length s - length r) s"

definition format_match ::
  "decimal_table \<Rightarrow> ustring \<Rightarrow> (ustring \<times> ustring \<times> ustring \<times> ustring) list" where
  \<comment> \<open>the matches of the whole pattern at the start of \<open>s\<close>, in the matcher's order: the
      groups d, m and Y and the unread rest\<close>
  "format_match dec s =
     [(consumed s r1, consumed r2 r3, consumed r4 r5, r5).
        r1 \<leftarrow> rmatch dec re_d s, r2 \<leftarrow> rmatch dec (Lit (CHR ''.'')) r1,
        r3 \<leftarrow> rmatch dec re_m r2, r4 \<leftarrow> rmatch dec (Lit (CHR ''.'')) r3,
        r5 \<leftarrow> rmatch dec re_Y r4]"

definition digit_value :: "decimal_table \<Rightarrow> nat \<Rightarrow> int" where
  "digit_value dec x = (case dec x of None \<Rightarrow> 0 | Some v \<Rightarrow> int v)"

definition number :: "decimal_table \<Rightarrow> ustring \<Rightarrow> int" where
  \<comment> \<open>the number that a string of decimal digits writes\<close>
  "number dec s = foldl (\<lambda>n x. 10 * n + digit_value dec x) 0 s"

definition blank :: nat where
  "blank = code_point (CHR '' '')"

definition dot :: nat where
  "dot = code_point (CHR ''.'')"

definition py_int :: "decimal_table \<Rightarrow> ustring \<Rightarrow> error + int" where
  \<comment> \<open>\<^verbatim>\<open>int(s)\<close> on the texts a group of the pattern can hold: blanks around the
      number are dropped and decimal digits are read; anything else is a \<^verbatim>\<open>ValueError\<close>
      (the signs, underscores and other white space that \<^verbatim>\<open>int\<close> reads as well occur
      in no group)\<close>
  "py_int dec s =
     (let t = rev (dropWhile (\<lambda>x. x = blank) (rev (dropWhile (\<lambda>x. x = blank) s)))
      in if t = [] \<or> \<not> list_all (is_decimal dec) t
         then Inl (ValueError ''invalid literal for int() with base 10'')
         else Inr (number dec t))"

definition strptime_unicode :: "decimal_table \<Rightarrow> ustring \<Rightarrow> error + date" where
  \<comment> \<open>\<^verbatim>\<open>datetime.datetime.strptime(data_string, "%d.%m.%Y").date()\<close>\<close>
  "strptime_unicode dec data_string =
     (case format_match dec data_string of
        [] \<Rightarrow> Inl (ValueError ''time data does not match format'')
      | (d, m, y, rest) # _ \<Rightarrow>
          if rest \<noteq> [] then Inl (ValueError ''unconverted data remains'')
          else (case py_int dec y of Inl e \<Rightarrow> Inl e | Inr yi \<Rightarrow>
               (case py_int dec m of Inl e \<Rightarrow> Inl e | Inr mi \<Rightarrow>
               (case py_int dec d of Inl e \<Rightarrow> Inl e | Inr di \<Rightarrow> date_new yi mi di))))"

definition Birthday_unicode :: "decimal_table \<Rightarrow> ustring \<Rightarrow> error + ustring" where
  \<comment> \<open>\<^verbatim>\<open>Birthday(value)\<close> for a string of any code points: every exception of the parse
      becomes the one \<^verbatim>\<open>ValueError\<close>; the string itself is stored\<close>
  "Birthday_unicode dec v =
     (case strptime_unicode dec v of
        Inl e \<Rightarrow> Inl (ValueError ''Invalid date format. Use DD.MM.YYYY'')
      | Inr _ \<Rightarrow> Inr v)"

text \<open>
  On the strings of the model, whose code points are below 256, the only decimal digits
  are \<^verbatim>\<open>0\<close> to \<^verbatim>\<open>9\<close>.
\<close>

definition latin1_decimal :: decimal_table where
  "latin1_decimal x = (if 48 \<le> x \<and> x \<le> 57 then Some (x - 48) else None)"

definition strptime :: "string \<Rightarrow> error + date" where
  "strptime data_string = strptime_unicode latin1_decimal (ustr data_string)"

definition Birthday :: "string \<Rightarrow> error + string" where
  "Birthday v =
     (case strptime v of
        Inl e \<Rightarrow> Inl (ValueError ''Invalid date format. Use DD.MM.YYYY'')
      | Inr _ \<Rightarrow> Inr v)"

subsection \<open>Record\<close>

text \<open>
  The phones of a record are \<^verbatim>\<open>Phone\<close> objects in a list. \<^verbatim>\<open>find_phone\<close> returns the
  first object with the given value, and \<^verbatim>\<open>list.remove\<close> of that object deletes the
  first element equal to it, which is the object itself: the first element with that
  value.
\<close>

record Record =
  name :: string
  phones :: "string list"
  birthday :: "string option"

definition Record_init :: "string \<Rightarrow> error + Record" where
  \<comment> \<open>\<^verbatim>\<open>Record(name)\<close>: no check of the name, no \<^verbatim>\<open>raise\<close>\<close>
  "Record_init n =
     (case Name n of Inl e \<Rightarrow> Inl e
      | Inr nm \<Rightarrow> Inr \<lparr>name = nm, phones = [], birthday = None\<rparr>)"

definition find_phone :: "string \<Rightarrow> Record \<Rightarrow> string option" where
  "find_phone phone_str self = List.find (\<lambda>ph. ph = phone_str) (phones self)"

definition add_phone :: "string \<Rightarrow> Record \<Rightarrow> (error + unit) \<times> Record" where
  "add_phone new_phone self =
     (if find_phone new_phone self \<noteq> None
      then (Inl (ValueError (''Phone number '' @ new_phone @ '' already exists for '' @ name self)),
            self)
      else (case Phone new_phone of
              Inl e \<Rightarrow> (Inl e, self)
            | Inr phone \<Rightarrow> (Inr (), self\<lparr>phones := phones self @ [phone]\<rparr>)))"

definition remove_phone :: "string \<Rightarrow> Record \<Rightarrow> (error + unit) \<times> Record" where
  "remove_phone rem_phone self =
     (case find_phone rem_phone self of
        Some phone_obj \<Rightarrow> (Inr (), self\<lparr>phones := remove1 phone_obj (phones self)\<rparr>)
      | None \<Rightarrow> (Inl (ValueError (''Phone number '' @ rem_phone @ '' not found'')), self))"

definition edit_phone :: "string \<Rightarrow> string \<Rightarrow> Record \<Rightarrow> (error + unit) \<times> Record" where
  "edit_phone old new self =
     (case find_phone old self of
        None \<Rightarrow> (Inl (ValueError (''Phone number '' @ old @ '' not found'')), self)
      | Some phone_obj \<Rightarrow>
          (case add_phone new self of
             (Inl e, self1) \<Rightarrow> (Inl e, self1)
           | (Inr u, self1) \<Rightarrow> remove_phone old self1))"

definition add_birthday :: "string \<Rightarrow> Record \<Rightarrow> (error + unit) \<times> Record" where
  "add_birthday bday_value self =
     (if birthday self \<noteq> None
      then (Inl (ValueError ''Birthday already set for this contact''), self)
      else (case Birthday bday_value of
              Inl e \<Rightarrow> (Inl e, self)
            | Inr bday \<Rightarrow> (Inr (), self\<lparr>birthday := Some bday\<rparr>)))"

text \<open>
  The records the program can hold: a fresh record, and a record as any call of a
  method leaves it, whether the call returns or raises.
\<close>

inductive reachable :: "Record \<Rightarrow> bool" where
  created: "Record_init n = Inr r \<Longrightarrow> reachable r"
| after_add_phone: "reachable r \<Longrightarrow> reachable (snd (add_phone p r))"
| after_remove_phone: "reachable r \<Longrightarrow> reachable (snd (remove_phone p r))"
| after_edit_phone: "reachable r \<Longrightarrow> reachable (snd (edit_phone p q r))"
| after_add_birthday: "reachable r \<Longrightarrow> reachable (snd (add_birthday b r))"

definition record_inv :: "Record \<Rightarrow> bool" where
  \<comment> \<open>what the methods keep true of a record: no phone twice, every phone one that
      \<^verbatim>\<open>Phone\<close> accepts, the birthday one that \<^verbatim>\<open>Birthday\<close> accepts\<close>
  "record_inv r =
     (distinct (phones r) \<and> list_all (\<lambda>p. Phone p = Inr p) (phones r) \<and>
      (case birthday r of None \<Rightarrow> True | Some b \<Rightarrow> Birthday b = Inr b))"

subsection \<open>AddressBook\<close>

text \<open>
  The \<^verbatim>\<open>data\<close> of the \<^verbatim>\<open>UserDict\<close> is a dictionary, which keeps its keys in the
  order of their first insertion: an association list without repeated keys.
\<close>

record AddressBook =
  data :: "(string \<times> Record) list"

fun dict_set :: "'k \<Rightarrow> 'v \<Rightarrow> ('k \<times> 'v) list \<Rightarrow> ('k \<times> 'v) list" where
  \<comment> \<open>\<^verbatim>\<open>d[k] = v\<close>\<close>
  "dict_set k v [] = [(k, v)]"
| "dict_set k v ((k', v') # kvs) =
     (if k' = k then (k, v) # kvs else (k', v') # dict_set k v kvs)"

definition add_record :: "Record \<Rightarrow> AddressBook \<Rightarrow> AddressBook" where
  "add_record record self = self\<lparr>data := dict_set (name record) record (data self)\<rparr>"

definition find_record :: "string \<Rightarrow> AddressBook \<Rightarrow> Record option" where
  \<comment> \<open>\<^verbatim>\<open>AddressBook.find\<close>\<close>
  "find_record name_str self = map_of (data self) name_str"

definition delete :: "string \<Rightarrow> AddressBook \<Rightarrow> AddressBook" where
  "delete name_str self = self\<lparr>data := filter (\<lambda>kv. fst kv \<noteq> name_str) (data self)\<rparr>"

text \<open>
  \<^verbatim>\<open>get_upcoming_birthdays\<close> takes no argument but the book and reads the day from the
  system clock with \<^verbatim>\<open>datetime.date.today()\<close>. The clock is the local date and the time
  of day; it is the environment of the call.
\<close>

record clock =
  clock_date :: date
  clock_seconds :: nat

definition date_today :: "clock \<Rightarrow> date" where
  "date_today c = clock_date c"

definition birthday_of_record :: "date \<Rightarrow> date \<Rightarrow> Record \<Rightarrow> error + (string \<times> string) list option" where
  \<comment> \<open>one pass of the loop body for \<open>rec\<close>: \<open>Inr None\<close> when nothing is appended
      (\<^verbatim>\<open>continue\<close>, or the test of the window fails), \<open>Inr (Some d)\<close> when the
      dictionary \<open>d\<close> is appended, \<open>Inl e\<close> when the exception \<open>e\<close> leaves the loop\<close>
  "birthday_of_record today end_date rec =
     (case birthday rec of
        None \<Rightarrow> Inr None
      | Some bday_str \<Rightarrow>
     (case strptime bday_str of
        Inl e \<Rightarrow> Inl e
      | Inr bday_dt \<Rightarrow>
     (case date_new (year today) (month bday_dt) (day bday_dt) of
        Inl (ValueError msg) \<Rightarrow> Inr None
      | Inl e \<Rightarrow> Inl e
      | Inr candidate0 \<Rightarrow>
     (case (if date_lt candidate0 today
            then date_new (year today + 1) (month bday_dt) (day bday_dt)
            else Inr candidate0) of
        Inl e \<Rightarrow> Inl e
      | Inr candidate \<Rightarrow>
     (case (if weekday candidate = 5 then add_days candidate 2
            else if weekday candidate = 6 then add_days candidate 1
            else Inr candidate) of
        Inl e \<Rightarrow> Inl e
      | Inr shifted \<Rightarrow>
          if date_le today shifted \<and> date_le shifted end_date
          then Inr (Some [(''name'', name rec), (''birthday'', strftime shifted)])
          else Inr None)))))"

fun birthdays_loop ::
  "date \<Rightarrow> date \<Rightarrow> Record list \<Rightarrow> (string \<times> string) list list \<Rightarrow> error + (string \<times> string) list list" where
  "birthdays_loop today end_date [] result = Inr result"
| "birthdays_loop today end_date (rec # recs) result =
     (case birthday_of_record today end_date rec of
        Inl e \<Rightarrow> Inl e
      | Inr None \<Rightarrow> birthdays_loop today end_date recs result
      | Inr (Some d) \<Rightarrow> birthdays_loop today end_date recs (result @ [d]))"

definition get_upcoming_birthdays :: "clock \<Rightarrow> AddressBook \<Rightarrow> error + (string \<times> string) list list" where
  "get_upcoming_birthdays clk self =
     (let today = date_today clk in
      case add_days today 6 of
        Inl e \<Rightarrow> Inl e
      | Inr end_date \<Rightarrow> birthdays_loop today end_date (map snd (data self)) [])"

section \<open>The notions of the specification\<close>

text \<open>
  The specification speaks of strings that match \<^verbatim>\<open>^[0-9]{10}$\<close>, of strings in the
  format \<^verbatim>\<open>DD.MM.YYYY\<close> that denote a calendar date, and of a window of days. These
  are written down here after its words, to be compared with what the code computes.
\<close>

definition is_ascii :: "string \<Rightarrow> bool" where
  "is_ascii s = list_all (\<lambda>c. code_point c < 128) s"

definition spec_phone_pattern :: "string \<Rightarrow> bool" where
  \<comment> \<open>exactly ten ASCII decimal digits\<close>
  "spec_phone_pattern raw = (length raw = 10 \<and> list_all (in_range (CHR ''0'') (CHR ''9'')) raw)"

definition is_ymd :: "int \<Rightarrow> int \<Rightarrow> int \<Rightarrow> bool" where
  \<comment> \<open>day \<open>d\<close> of month \<open>m\<close> of year \<open>y\<close> is a date of the calendar\<close>
  "is_ymd y m d =
     (MINYEAR \<le> y \<and> y \<le> MAXYEAR \<and> 1 \<le> m \<and> m \<le> 12 \<and> 1 \<le> d \<and> d \<le> days_in_month y m)"

definition is_date :: "date \<Rightarrow> bool" where
  "is_date a = is_ymd (year a) (month a) (day a)"

definition ascii_decimal :: "decimal_table \<Rightarrow> bool" where
  \<comment> \<open>what every table of the Unicode database says of the ASCII code points: the
      decimal digits among them are \<^verbatim>\<open>0\<close> to \<^verbatim>\<open>9\<close>, with their values\<close>
  "ascii_decimal dec =
     list_all (\<lambda>x. dec x = (if 48 \<le> x \<and> x \<le> 57 then Some (x - 48) else None)) [0..<128]"

definition ascii_digit :: "nat \<Rightarrow> bool" where
  "ascii_digit x = cp_in_range (CHR ''0'') (CHR ''9'') x"

definition ascii_number :: "ustring \<Rightarrow> int" where
  \<comment> \<open>the number that a string of ASCII digits writes\<close>
  "ascii_number s = foldl (\<lambda>n x. 10 * n + (int x - 48)) 0 s"

definition spec_date_format :: "ustring \<Rightarrow> bool" where
  \<comment> \<open>the exact format \<^verbatim>\<open>DD.MM.YYYY\<close>: two ASCII digits, a dot, two ASCII digits, a
      dot, four ASCII digits\<close>
  "spec_date_format raw =
     (length raw = 10 \<and> raw ! 2 = dot \<and> raw ! 5 = dot \<and>
      list_all ascii_digit (take 2 raw) \<and>
      list_all ascii_digit (take 2 (drop 3 raw)) \<and>
      list_all ascii_digit (drop 6 raw))"

definition spec_real_date :: "ustring \<Rightarrow> bool" where
  \<comment> \<open>a string in the format \<^verbatim>\<open>DD.MM.YYYY\<close> denotes a date of the calendar\<close>
  "spec_real_date raw =
     is_ymd (ascii_number (drop 6 raw)) (ascii_number (take 2 (drop 3 raw)))
       (ascii_number (take 2 raw))"

definition day_text :: "decimal_table \<Rightarrow> ustring \<Rightarrow> bool" where
  \<comment> \<open>a day of the month as the pattern reads it: 1 to 31 in one or two digits, a
      one-digit day also after a zero or a blank; the digits are ASCII, but after a first
      digit 1 or 2 the second may be any decimal digit\<close>
  "day_text dec w =
     (case w of
        [c] \<Rightarrow> cp_in_range (CHR ''1'') (CHR ''9'') c
      | [a, b] \<Rightarrow>
          (a = code_point (CHR ''3'') \<and> cp_in_range (CHR ''0'') (CHR ''1'') b) \<or>
          (cp_in_range (CHR ''1'') (CHR ''2'') a \<and> is_decimal dec b) \<or>
          ((a = code_point (CHR ''0'') \<or> a = blank) \<and> cp_in_range (CHR ''1'') (CHR ''9'') b)
      | _ \<Rightarrow> False)"

definition month_text :: "ustring \<Rightarrow> bool" where
  \<comment> \<open>a month as the pattern reads it: 1 to 12 in one or two ASCII digits, a one-digit
      month also after a zero\<close>
  "month_text w =
     (case w of
        [c] \<Rightarrow> cp_in_range (CHR ''1'') (CHR ''9'') c
      | [a, b] \<Rightarrow>
          (a = code_point (CHR ''1'') \<and> cp_in_range (CHR ''0'') (CHR ''2'') b) \<or>
          (a = code_point (CHR ''0'') \<and> cp_in_range (CHR ''1'') (CHR ''9'') b)
      | _ \<Rightarrow> False)"

definition year_text :: "decimal_table \<Rightarrow> ustring \<Rightarrow> bool" where
  \<comment> \<open>a year as the pattern reads it: four decimal digits, ASCII or not\<close>
  "year_text dec w = (length w = 4 \<and> list_all (is_decimal dec) w)"


definition rollover_missing :: "date \<Rightarrow> Record \<Rightarrow> bool" where
  \<comment> \<open>the record on which the call raises: its birthday does not parse, or it is a
      date of the year of \<open>today\<close> that is before \<open>today\<close> and is no date of the next
      year\<close>
  "rollover_missing today rec =
     (case birthday rec of
        None \<Rightarrow> False
      | Some b \<Rightarrow>
          (case strptime b of
             Inl e \<Rightarrow> True
           | Inr bd \<Rightarrow>
               is_ymd (year today) (month bd) (day bd) \<and>
               date_lt \<lparr>year = year today, month = month bd, day = day bd\<rparr> today \<and>
               \<not> is_ymd (year today + 1) (month bd) (day bd)))"

definition spec_candidate :: "date \<Rightarrow> date \<Rightarrow> date" where
  \<comment> \<open>month and day of the birthday in the year of \<open>today\<close>, in the next year if that
      date is before \<open>today\<close>\<close>
  "spec_candidate today bd =
     \<lparr>year = (if month bd < month today \<or> (month bd = month today \<and> day bd < day today)
               then year today + 1 else year today),
      month = month bd, day = day bd\<rparr>"

definition spec_shift :: "date \<Rightarrow> int" where
  \<comment> \<open>the days a date moves forward: two from a Saturday, one from a Sunday\<close>
  "spec_shift c = (if weekday c = 5 then 2 else if weekday c = 6 then 1 else 0)"

definition spec_in_window :: "date \<Rightarrow> date \<Rightarrow> bool" where
  \<comment> \<open>the inclusive window of \<open>today\<close> and the six days after it, in day numbers\<close>
  "spec_in_window today shifted =
     (toordinal today \<le> toordinal shifted \<and> toordinal shifted \<le> toordinal today + 6)"

definition spec_upcoming :: "date \<Rightarrow> Record \<Rightarrow> (string \<times> string) list option \<Rightarrow> bool" where
  \<comment> \<open>what the specification says of one record: \<open>out\<close> is its entry, or \<open>None\<close> when
      the record is left out; a record whose month and day are no date of the year of
      \<open>today\<close> is skipped\<close>
  "spec_upcoming today rec out =
     (case birthday rec of
        None \<Rightarrow> out = None
      | Some b \<Rightarrow>
          (\<exists>bd. strptime b = Inr bd \<and>
             (if \<not> is_ymd (year today) (month bd) (day bd) then out = None
              else (\<exists>shifted. is_date (spec_candidate today bd) \<and> is_date shifted \<and>
                      toordinal shifted =
                        toordinal (spec_candidate today bd) + spec_shift (spec_candidate today bd) \<and>
                      out = (if spec_in_window today shifted
                             then Some [(''name'', name rec), (''birthday'', strftime shifted)]
                             else None)))))"


section \<open>Example data\<close>

definition bob :: Record where
  "bob = \<lparr>name = ''Bob'', phones = [''0501234567'', ''0670000000''], birthday = Some ''12.06.2020''\<rparr>"

definition superscript_twos :: string where
  \<comment> \<open>ten times the character U+00B2, superscript two\<close>
  "superscript_twos = replicate 10 (char_of (178 :: nat))"

definition contact :: "string \<Rightarrow> string \<Rightarrow> string \<times> Record" where
  \<comment> \<open>the entry of the book for a contact with a birthday and no phone\<close>
  "contact n b = (n, \<lparr>name = n, phones = [], birthday = Some b\<rparr>)"

definition on_day :: "int \<Rightarrow> int \<Rightarrow> int \<Rightarrow> clock" where
  \<comment> \<open>the clock at noon of the given day\<close>
  "on_day y m d = \<lparr>clock_date = \<lparr>year = y, month = m, day = d\<rparr>, clock_seconds = 43200\<rparr>"



definition leap_book :: AddressBook where
  "leap_book = \<lparr>data = [contact ''Lea'' ''29.02.2000'']\<rparr>"


definition example_table :: decimal_table where
  \<comment> \<open>a table with the ASCII digits and the Arabic-Indic digits U+0660 to U+0669\<close>
  "example_table x =
     (if 48 \<le> x \<and> x \<le> 57 then Some (x - 48)
      else if 1632 \<le> x \<and> x \<le> 1641 then Some (x - 1632)
      else None)"

definition arabic_indic_year :: ustring where
  \<comment> \<open>\<^verbatim>\<open>12.06.\<close> and the year 2020 in Arabic-Indic digits\<close>
  "arabic_indic_year = ustr ''12.06.'' @ [1634, 1632, 1634, 1632]"

definition arabic_indic_day :: ustring where
  \<comment> \<open>the digit 3, an Arabic-Indic zero and \<^verbatim>\<open>.06.2020\<close>\<close>
  "arabic_indic_day = [51, 1632] @ ustr ''.06.2020''"


section \<open>Record: phones and birthday\<close>

lemma find_value: "List.find (\<lambda>x. x = p) xs = (if p \<in> set xs then Some p else None)"
  by (induction xs) auto

lemma find_phone_eq: "find_phone p r = (if p \<in> set (phones r) then Some p else None)"
  by (simp add: find_phone_def find_value)

lemma Phone_Inr: "Phone p = Inr q \<Longrightarrow> q = p"
  by (simp add: Phone_def split: if_splits)

lemma Birthday_Inr: "Birthday b = Inr v \<Longrightarrow> v = b"
  by (simp add: Birthday_def split: sum.splits)

lemma add_phone_fails:
  "p \<in> set (phones r) \<Longrightarrow>
   add_phone p r = (Inl (ValueError (''Phone number '' @ p @ '' already exists for '' @ name r)), r)"
  by (simp add: add_phone_def find_phone_eq)

lemma add_phone_invalid:
  "p \<notin> set (phones r) \<Longrightarrow> Phone p = Inl e \<Longrightarrow> add_phone p r = (Inl e, r)"
  by (simp add: add_phone_def find_phone_eq)

lemma add_phone_appends:
  "p \<notin> set (phones r) \<Longrightarrow> Phone p = Inr p \<Longrightarrow>
   add_phone p r = (Inr (), r\<lparr>phones := phones r @ [p]\<rparr>)"
  by (simp add: add_phone_def find_phone_eq)

lemma remove_phone_removes:
  "p \<in> set (phones r) \<Longrightarrow> remove_phone p r = (Inr (), r\<lparr>phones := remove1 p (phones r)\<rparr>)"
  by (simp add: remove_phone_def find_phone_eq)

lemma remove_phone_fails:
  "p \<notin> set (phones r) \<Longrightarrow>
   remove_phone p r = (Inl (ValueError (''Phone number '' @ p @ '' not found'')), r)"
  by (simp add: remove_phone_def find_phone_eq)

text \<open>The four ways through \<^verbatim>\<open>edit_phone\<close>.\<close>

lemma edit_phone_absent:
  "old \<notin> set (phones r) \<Longrightarrow>
   edit_phone old new r = (Inl (ValueError (''Phone number '' @ old @ '' not found'')), r)"
  by (simp add: edit_phone_def find_phone_eq)

lemma edit_phone_duplicate:
  "old \<in> set (phones r) \<Longrightarrow> new \<in> set (phones r) \<Longrightarrow>
   edit_phone old new r =
     (Inl (ValueError (''Phone number '' @ new @ '' already exists for '' @ name r)), r)"
  by (simp add: edit_phone_def find_phone_eq add_phone_fails)

lemma edit_phone_invalid:
  "old \<in> set (phones r) \<Longrightarrow> new \<notin> set (phones r) \<Longrightarrow> Phone new = Inl e \<Longrightarrow>
   edit_phone old new r = (Inl e, r)"
  by (simp add: edit_phone_def find_phone_eq add_phone_invalid)

lemma edit_phone_replaces:
  "old \<in> set (phones r) \<Longrightarrow> new \<notin> set (phones r) \<Longrightarrow> Phone new = Inr new \<Longrightarrow>
   edit_phone old new r = (Inr (), r\<lparr>phones := remove1 old (phones r) @ [new]\<rparr>)"
  by (auto simp add: edit_phone_def find_phone_eq add_phone_appends remove_phone_removes
      remove1_append)

lemma add_birthday_set:
  "birthday r = Some b \<Longrightarrow>
   add_birthday raw r = (Inl (ValueError ''Birthday already set for this contact''), r)"
  by (simp add: add_birthday_def)

lemma add_birthday_cases:
  "add_birthday raw r = (Inr (), r') \<Longrightarrow>
   birthday r = None \<and> Birthday raw = Inr raw \<and> r' = r\<lparr>birthday := Some raw\<rparr>"
  by (auto simp add: add_birthday_def split: if_splits sum.splits dest: Birthday_Inr)

subsection \<open>The invariant of the records the program holds\<close>

lemma inv_created: "Record_init n = Inr r \<Longrightarrow> record_inv r"
  by (auto simp: Record_init_def Name_def record_inv_def)

lemma inv_add_phone: "record_inv r \<Longrightarrow> record_inv (snd (add_phone p r))"
  by (auto simp: add_phone_def find_phone_eq record_inv_def split: sum.splits dest: Phone_Inr)

lemma inv_remove_phone: "record_inv r \<Longrightarrow> record_inv (snd (remove_phone p r))"
  by (auto simp: remove_phone_def find_phone_eq record_inv_def list_all_iff
      split: option.splits dest: notin_set_remove1)

lemma inv_edit_phone: "record_inv r \<Longrightarrow> record_inv (snd (edit_phone p q r))"
  using inv_add_phone[of r q] inv_remove_phone[of "snd (add_phone q r)" p]
  by (auto simp: edit_phone_def split: option.splits sum.splits prod.splits)

lemma inv_add_birthday: "record_inv r \<Longrightarrow> record_inv (snd (add_birthday b r))"
  by (auto simp: add_birthday_def record_inv_def split: sum.splits dest: Birthday_Inr)

lemma reachable_inv: "reachable r \<Longrightarrow> record_inv r"
  by (induction rule: reachable.induct)
     (simp_all add: inv_created inv_add_phone inv_remove_phone inv_edit_phone inv_add_birthday)

subsection \<open>The example record\<close>

lemma Phone_example:
  "Phone ''0501234567'' = Inr ''0501234567''"
  "Phone ''0670000000'' = Inr ''0670000000''"
  "Phone ''0931112233'' = Inr ''0931112233''"
  by (simp_all add: Phone_def isdigit_def isdigit_char_def isdecimal_char_def in_range_def
      code_point_def)

lemma Birthday_example: "Birthday ''12.06.2020'' = Inr ''12.06.2020''"
  by code_simp

lemma bob_reachable: "reachable bob"
proof -
  let ?r0 = "\<lparr>name = ''Bob'', phones = [], birthday = None\<rparr>"
  have "reachable ?r0"
    by (rule reachable.created[of "''Bob''"]) (simp add: Record_init_def Name_def)
  then have "reachable (snd (add_phone ''0501234567'' ?r0))"
    by (rule reachable.after_add_phone)
  then have "reachable (snd (add_phone ''0670000000'' (snd (add_phone ''0501234567'' ?r0))))"
    by (rule reachable.after_add_phone)
  then have "reachable (snd (add_birthday ''12.06.2020''
      (snd (add_phone ''0670000000'' (snd (add_phone ''0501234567'' ?r0))))))"
    by (rule reachable.after_add_birthday)
  moreover have "snd (add_birthday ''12.06.2020''
      (snd (add_phone ''0670000000'' (snd (add_phone ''0501234567'' ?r0))))) = bob"
    by (simp add: add_phone_def add_birthday_def find_phone_def Phone_example Birthday_example
        bob_def)
  ultimately show ?thesis by simp
qed

subsection \<open>Editing a phone\<close>

text \<open>
  Claim C6. For every record the program holds: if \<open>old\<close> is a stored phone and \<open>new\<close> is
  a string that \<^verbatim>\<open>Phone\<close> accepts and that is not stored, then
  \<^verbatim>\<open>edit_phone(old, new)\<close> returns, and afterwards \<^verbatim>\<open>find_phone(old)\<close> is
  \<^verbatim>\<open>None\<close> and \<^verbatim>\<open>find_phone(new)\<close> finds the phone: \<open>old\<close> is replaced by \<open>new\<close>,
  the new number standing last.
\<close>

theorem edit_phone_replaces_old_by_new:
  assumes "reachable r" and "old \<in> set (phones r)" and "Phone new = Inr new"
    and "new \<notin> set (phones r)"
  shows "edit_phone old new r = (Inr (), r\<lparr>phones := remove1 old (phones r) @ [new]\<rparr>) \<and>
         find_phone old (snd (edit_phone old new r)) = None \<and>
         find_phone new (snd (edit_phone old new r)) = Some new \<and>
         set (phones (snd (edit_phone old new r))) = insert new (set (phones r) - {old})"
proof -
  have d: "distinct (phones r)"
    using reachable_inv[OF assms(1)] by (simp add: record_inv_def)
  have e: "edit_phone old new r = (Inr (), r\<lparr>phones := remove1 old (phones r) @ [new]\<rparr>)"
    using assms by (simp add: edit_phone_replaces)
  have "old \<noteq> new"
    using assms by auto
  then show ?thesis
    using d e assms(4) by (auto simp add: find_phone_eq)
qed

theorem edit_phone_replaces_old_by_new_witness:
  "edit_phone ''0501234567'' ''0931112233'' bob =
     (Inr (), bob\<lparr>phones := [''0670000000'', ''0931112233'']\<rparr>) \<and>
   find_phone ''0501234567'' (snd (edit_phone ''0501234567'' ''0931112233'' bob)) = None \<and>
   find_phone ''0931112233'' (snd (edit_phone ''0501234567'' ''0931112233'' bob)) =
     Some ''0931112233''"
proof -
  have 1: "''0501234567'' \<in> set (phones bob)" by (simp add: bob_def)
  have 2: "''0931112233'' \<notin> set (phones bob)" by (simp add: bob_def)
  have 3: "remove1 ''0501234567'' (phones bob) @ [''0931112233''] =
           [''0670000000'', ''0931112233'']"
    by (simp add: bob_def)
  from edit_phone_replaces_old_by_new[OF bob_reachable 1 Phone_example(3) 2, unfolded 3]
  show ?thesis by blast
qed

text \<open>
  Claim C7. \<^verbatim>\<open>edit_phone(old, new)\<close> raises exactly when \<open>old\<close> is not stored, or
  \<open>new\<close> is stored already, or \<^verbatim>\<open>Phone\<close> refuses \<open>new\<close>; and whenever it raises, the
  record is as it was before the call, the old phone included.
\<close>

theorem edit_phone_atomic_on_failure:
  "((\<exists>e. fst (edit_phone old new r) = Inl e) \<longleftrightarrow>
      (old \<notin> set (phones r) \<or> new \<in> set (phones r) \<or> (\<exists>e. Phone new = Inl e))) \<and>
   (\<forall>e. fst (edit_phone old new r) = Inl e \<longrightarrow> snd (edit_phone old new r) = r)"
proof (cases "old \<in> set (phones r)")
  case False
  then show ?thesis by (simp add: edit_phone_absent)
next
  case old: True
  show ?thesis
  proof (cases "new \<in> set (phones r)")
    case True
    with old show ?thesis by (simp add: edit_phone_duplicate)
  next
    case new: False
    show ?thesis
    proof (cases "Phone new")
      case (Inl e)
      with old new show ?thesis by (simp add: edit_phone_invalid)
    next
      case (Inr q)
      then have "Phone new = Inr new" by (simp add: Phone_Inr)
      with old new show ?thesis by (simp add: edit_phone_replaces)
    qed
  qed
qed

theorem edit_phone_atomic_on_failure_witness:
  "fst (edit_phone ''0501234567'' ''12345'' bob) =
     Inl (ValueError ''Phone must be a 10-digit string'') \<and>
   snd (edit_phone ''0501234567'' ''12345'' bob) = bob \<and>
   ''0501234567'' \<in> set (phones (snd (edit_phone ''0501234567'' ''12345'' bob)))"
proof -
  have f: "fst (edit_phone ''0501234567'' ''12345'' bob) =
           Inl (ValueError ''Phone must be a 10-digit string'')"
    by (simp add: edit_phone_def add_phone_def find_phone_def Phone_def bob_def)
  then show ?thesis
    using edit_phone_atomic_on_failure[of "''0501234567''" "''12345''" bob] by (simp add: bob_def)
qed

text \<open>
  Claim C10. For every record and every phone \<open>p\<close> stored in it, \<^verbatim>\<open>edit_phone(p, p)\<close>
  is no successful no-op: the add of the new value runs first and raises the
  \<^verbatim>\<open>ValueError\<close> of a duplicate phone, and the record is unchanged.
\<close>

theorem edit_phone_same_number:
  "p \<in> set (phones r) \<Longrightarrow>
   edit_phone p p r =
     (Inl (ValueError (''Phone number '' @ p @ '' already exists for '' @ name r)), r)"
  by (simp add: edit_phone_duplicate)

theorem edit_phone_same_number_witness:
  "edit_phone ''0670000000'' ''0670000000'' bob =
     (Inl (ValueError ''Phone number 0670000000 already exists for Bob''), bob)"
proof -
  have "''0670000000'' \<in> set (phones bob)" by (simp add: bob_def)
  from edit_phone_same_number[OF this] show ?thesis by (simp add: bob_def)
qed

subsection \<open>Setting the birthday\<close>

text \<open>
  Claim C8. \<^verbatim>\<open>add_birthday\<close> raises the \<^verbatim>\<open>ValueError\<close> "Birthday already set for
  this contact" whenever the record has a birthday, whatever the new string is, and
  leaves the record as it is; so after a first call that returned, a second call raises
  and the birthday of the first call stays.
\<close>

theorem add_birthday_never_overwrites:
  "(birthday r = Some b \<longrightarrow>
      add_birthday raw r = (Inl (ValueError ''Birthday already set for this contact''), r)) \<and>
   (fst (add_birthday raw1 r0) = Inr () \<longrightarrow>
      birthday (snd (add_birthday raw1 r0)) = Some raw1 \<and>
      add_birthday raw2 (snd (add_birthday raw1 r0)) =
        (Inl (ValueError ''Birthday already set for this contact''), snd (add_birthday raw1 r0)))"
proof (intro conjI impI)
  assume "birthday r = Some b"
  then show "add_birthday raw r = (Inl (ValueError ''Birthday already set for this contact''), r)"
    by (rule add_birthday_set)
next
  assume ok: "fst (add_birthday raw1 r0) = Inr ()"
  then have "add_birthday raw1 r0 = (Inr (), snd (add_birthday raw1 r0))"
    by (cases "add_birthday raw1 r0") simp
  from add_birthday_cases[OF this]
  have "snd (add_birthday raw1 r0) = r0\<lparr>birthday := Some raw1\<rparr>"
    by simp
  then show b: "birthday (snd (add_birthday raw1 r0)) = Some raw1"
    by simp
  show "add_birthday raw2 (snd (add_birthday raw1 r0)) =
        (Inl (ValueError ''Birthday already set for this contact''), snd (add_birthday raw1 r0))"
    using b by (rule add_birthday_set)
qed

theorem add_birthday_never_overwrites_witness:
  "add_birthday ''01.01.1990'' bob =
     (Inl (ValueError ''Birthday already set for this contact''), bob) \<and>
   birthday (snd (add_birthday ''01.01.1990'' bob)) = Some ''12.06.2020''"
proof -
  have "birthday bob = Some ''12.06.2020''" by (simp add: bob_def)
  then show ?thesis
    using add_birthday_never_overwrites[of bob "''12.06.2020''" "''01.01.1990''"] by simp
qed

subsection \<open>Creating a record\<close>

text \<open>
  Claim C9, as the code has it. \<^verbatim>\<open>Record(name)\<close> checks nothing: for every name, the
  empty one too, it returns a record with that name, no phone and no birthday.
\<close>

theorem Record_init_any_name:
  "Record_init n = Inr \<lparr>name = n, phones = [], birthday = None\<rparr>"
  by (simp add: Record_init_def Name_def)

theorem Record_init_any_name_witness:
  "Record_init ''Bob'' = Inr \<lparr>name = ''Bob'', phones = [], birthday = None\<rparr>"
  using Record_init_any_name[of "''Bob''"] .

text \<open>The empty name is accepted: creation does not fail for it.\<close>

theorem Record_init_empty_name:
  "Record_init [] = Inr \<lparr>name = [], phones = [], birthday = None\<rparr> \<and>
   (\<nexists>e. Record_init [] = Inl e)"
  by (simp add: Record_init_def Name_def)

section \<open>Phone\<close>

lemma ascii_digit: "code_point c < 128 \<Longrightarrow> isdigit_char c = in_range (CHR ''0'') (CHR ''9'') c"
  by (auto simp: isdigit_char_def isdecimal_char_def)

lemma ascii_digits: "is_ascii s \<Longrightarrow> list_all isdigit_char s = list_all (in_range (CHR ''0'') (CHR ''9'')) s"
  by (induction s) (auto simp: is_ascii_def ascii_digit)

text \<open>
  Claim C3, as the code has it. \<^verbatim>\<open>Phone(raw)\<close> returns exactly when \<open>raw\<close> has ten
  characters and each of them is a digit for \<^verbatim>\<open>str.isdigit\<close>, which holds of the ASCII
  digits and also of other digit characters such as the superscript two; every other
  string raises the \<^verbatim>\<open>ValueError\<close> "Phone must be a 10-digit string". On ASCII
  strings that is: exactly when \<open>raw\<close> is ten ASCII decimal digits.
\<close>

theorem Phone_succeeds_iff:
  "(Phone raw = Inr raw \<longleftrightarrow> length raw = 10 \<and> list_all isdigit_char raw) \<and>
   (Phone raw \<noteq> Inr raw \<longrightarrow> Phone raw = Inl (ValueError ''Phone must be a 10-digit string'')) \<and>
   (is_ascii raw \<longrightarrow> (Phone raw = Inr raw \<longleftrightarrow> spec_phone_pattern raw))"
proof -
  have 1: "Phone raw = Inr raw \<longleftrightarrow> length raw = 10 \<and> list_all isdigit_char raw"
    by (auto simp: Phone_def isdigit_def)
  have 2: "Phone raw \<noteq> Inr raw \<longrightarrow> Phone raw = Inl (ValueError ''Phone must be a 10-digit string'')"
    by (simp add: Phone_def)
  have 3: "is_ascii raw \<longrightarrow> (Phone raw = Inr raw \<longleftrightarrow> spec_phone_pattern raw)"
    by (simp add: 1 spec_phone_pattern_def ascii_digits)
  from 1 2 3 show ?thesis by blast
qed

theorem Phone_succeeds_iff_witness:
  "Phone ''0501234567'' = Inr ''0501234567'' \<and> spec_phone_pattern ''0501234567'' \<and>
   Phone ''050123456'' = Inl (ValueError ''Phone must be a 10-digit string'')"
proof -
  have a: "is_ascii ''0501234567''"
    by (simp add: is_ascii_def code_point_def)
  have p: "spec_phone_pattern ''0501234567''"
    by (simp add: spec_phone_pattern_def in_range_def code_point_def)
  have n: "Phone ''050123456'' \<noteq> Inr ''050123456''"
    by (simp add: Phone_def)
  from Phone_succeeds_iff[of "''0501234567''"] a p Phone_succeeds_iff[of "''050123456''"] n
  show ?thesis by blast
qed

text \<open>
  Ten superscript twos are no ASCII digits, and \<^verbatim>\<open>Phone\<close> accepts them.
\<close>

theorem Phone_accepts_superscript_digits:
  "Phone superscript_twos = Inr superscript_twos \<and> \<not> spec_phone_pattern superscript_twos"
  by code_simp

section \<open>Birthday: the pattern of the date\<close>

subsection \<open>What the matcher leaves, and the matches of the whole pattern\<close>

lemma rmatch_Lit: "r \<in> set (rmatch dec (Lit c) s) \<longleftrightarrow> s = code_point c # r"
  by (auto split: list.splits)

lemma rmatch_Rng:
  "r \<in> set (rmatch dec (Rng lo hi) s) \<longleftrightarrow> (\<exists>x. cp_in_range lo hi x \<and> s = x # r)"
  by (auto split: list.splits)

lemma rmatch_Dec: "r \<in> set (rmatch dec Dec s) \<longleftrightarrow> (\<exists>x. is_decimal dec x \<and> s = x # r)"
  by (auto split: list.splits)

lemma rmatch_Cat:
  "r \<in> set (rmatch dec (Cat p q) s) \<longleftrightarrow> (\<exists>t. t \<in> set (rmatch dec p s) \<and> r \<in> set (rmatch dec q t))"
  by auto

lemma rmatch_Alt:
  "r \<in> set (rmatch dec (Alt p q) s) \<longleftrightarrow> r \<in> set (rmatch dec p s) \<or> r \<in> set (rmatch dec q s)"
  by auto

lemma year_text_iff:
  "year_text dec w \<longleftrightarrow>
     (\<exists>a b c d. w = [a, b, c, d] \<and> is_decimal dec a \<and> is_decimal dec b \<and> is_decimal dec c \<and>
        is_decimal dec d)"
  by (auto simp: year_text_def length_Suc_conv numeral_eq_Suc)

lemma rmatch_re_Y: "r \<in> set (rmatch dec re_Y s) \<longleftrightarrow> (\<exists>w. year_text dec w \<and> s = w @ r)"
  by (auto simp: re_Y_def year_text_iff rmatch_Dec)

lemma day_text_iff:
  "day_text dec w \<longleftrightarrow>
     (\<exists>c. w = [c] \<and> cp_in_range (CHR ''1'') (CHR ''9'') c) \<or>
     (\<exists>a b. w = [a, b] \<and>
        ((a = code_point (CHR ''3'') \<and> cp_in_range (CHR ''0'') (CHR ''1'') b) \<or>
         (cp_in_range (CHR ''1'') (CHR ''2'') a \<and> is_decimal dec b) \<or>
         ((a = code_point (CHR ''0'') \<or> a = blank) \<and> cp_in_range (CHR ''1'') (CHR ''9'') b)))"
  unfolding day_text_def by (simp split: list.split)

lemma month_text_iff:
  "month_text w \<longleftrightarrow>
     (\<exists>c. w = [c] \<and> cp_in_range (CHR ''1'') (CHR ''9'') c) \<or>
     (\<exists>a b. w = [a, b] \<and>
        ((a = code_point (CHR ''1'') \<and> cp_in_range (CHR ''0'') (CHR ''2'') b) \<or>
         (a = code_point (CHR ''0'') \<and> cp_in_range (CHR ''1'') (CHR ''9'') b)))"
  unfolding month_text_def by (simp split: list.split)

lemma rmatch_re_d: "r \<in> set (rmatch dec re_d s) \<longleftrightarrow> (\<exists>w. day_text dec w \<and> s = w @ r)"
  unfolding re_d_def day_text_iff blank_def
  by (simp only: rmatch_Cat rmatch_Alt rmatch_Lit rmatch_Rng rmatch_Dec) fastforce

lemma rmatch_re_m: "r \<in> set (rmatch dec re_m s) \<longleftrightarrow> (\<exists>w. month_text w \<and> s = w @ r)"
  unfolding re_m_def month_text_iff
  by (simp only: rmatch_Cat rmatch_Alt rmatch_Lit rmatch_Rng rmatch_Dec) fastforce

lemma consumed_append: "consumed (w @ r) r = w"
  by (simp add: consumed_def)

lemma format_match_set:
  "x \<in> set (format_match dec s) \<longleftrightarrow>
     (\<exists>r1 r2 r3 r4 r5. r1 \<in> set (rmatch dec re_d s) \<and>
        r2 \<in> set (rmatch dec (Lit (CHR ''.'')) r1) \<and> r3 \<in> set (rmatch dec re_m r2) \<and>
        r4 \<in> set (rmatch dec (Lit (CHR ''.'')) r3) \<and> r5 \<in> set (rmatch dec re_Y r4) \<and>
        x = (consumed s r1, consumed r2 r3, consumed r4 r5, r5))"
  unfolding format_match_def by (simp del: rmatch.simps add: image_iff Bex_def) blast

lemma format_match_iff:
  "(a, b, c, r) \<in> set (format_match dec s) \<longleftrightarrow>
     day_text dec a \<and> month_text b \<and> year_text dec c \<and> s = a @ dot # b @ dot # c @ r"
proof
  assume "(a, b, c, r) \<in> set (format_match dec s)"
  then obtain r1 r2 r3 r4 where
    m: "r1 \<in> set (rmatch dec re_d s)" "r2 \<in> set (rmatch dec (Lit (CHR ''.'')) r1)"
       "r3 \<in> set (rmatch dec re_m r2)" "r4 \<in> set (rmatch dec (Lit (CHR ''.'')) r3)"
       "r \<in> set (rmatch dec re_Y r4)"
    and g: "a = consumed s r1" "b = consumed r2 r3" "c = consumed r4 r"
    unfolding format_match_set by auto
  from m obtain wd wm wy where
    w: "day_text dec wd" "s = wd @ r1" "r1 = dot # r2" "month_text wm" "r2 = wm @ r3"
       "r3 = dot # r4" "year_text dec wy" "r4 = wy @ r"
    unfolding rmatch_re_d rmatch_re_m rmatch_re_Y rmatch_Lit dot_def by blast
  with g have "a = wd" "b = wm" "c = wy"
    by (simp_all add: consumed_append)
  with w show "day_text dec a \<and> month_text b \<and> year_text dec c \<and> s = a @ dot # b @ dot # c @ r"
    by simp
next
  assume h: "day_text dec a \<and> month_text b \<and> year_text dec c \<and> s = a @ dot # b @ dot # c @ r"
  let ?r4 = "c @ r" let ?r3 = "dot # ?r4" let ?r2 = "b @ ?r3" let ?r1 = "dot # ?r2"
  have m: "?r1 \<in> set (rmatch dec re_d s)" "?r2 \<in> set (rmatch dec (Lit (CHR ''.'')) ?r1)"
       "?r3 \<in> set (rmatch dec re_m ?r2)" "?r4 \<in> set (rmatch dec (Lit (CHR ''.'')) ?r3)"
       "r \<in> set (rmatch dec re_Y ?r4)"
    using h unfolding rmatch_re_d rmatch_re_m rmatch_re_Y rmatch_Lit dot_def by auto
  have g: "a = consumed s ?r1" "b = consumed ?r2 ?r3" "c = consumed ?r4 r"
    using h consumed_append[of a ?r1] consumed_append[of b ?r3] consumed_append[of c r]
    by simp_all
  show "(a, b, c, r) \<in> set (format_match dec s)"
    unfolding format_match_set using m g by blast
qed

subsection \<open>The match is unique, and the groups are numbers\<close>

lemma table_ascii:
  "ascii_decimal dec \<Longrightarrow> x < 128 \<Longrightarrow> dec x = (if 48 \<le> x \<and> x \<le> 57 then Some (x - 48) else None)"
  by (simp add: ascii_decimal_def list_all_iff)

lemma code_points:
  "code_point (CHR ''0'') = 48" "code_point (CHR ''1'') = 49" "code_point (CHR ''2'') = 50"
  "code_point (CHR ''3'') = 51" "code_point (CHR ''9'') = 57" "dot = 46" "blank = 32"
  by (simp_all add: code_point_def dot_def blank_def)

lemma ascii_digit_iff: "ascii_digit x \<longleftrightarrow> 48 \<le> x \<and> x \<le> 57"
  by (simp add: ascii_digit_def cp_in_range_def code_points)

lemma ascii_digit_decimal:
  assumes "ascii_decimal dec" "ascii_digit x"
  shows "is_decimal dec x" and "digit_value dec x = int x - 48"
  using assms table_ascii[of dec x]
  by (simp_all add: ascii_digit_iff is_decimal_def digit_value_def)

lemma range_digit:
  "cp_in_range (CHR ''1'') (CHR ''9'') x \<Longrightarrow> ascii_digit x"
  "cp_in_range (CHR ''0'') (CHR ''1'') x \<Longrightarrow> ascii_digit x"
  "cp_in_range (CHR ''0'') (CHR ''2'') x \<Longrightarrow> ascii_digit x"
  "cp_in_range (CHR ''1'') (CHR ''2'') x \<Longrightarrow> ascii_digit x"
  by (simp_all add: ascii_digit_iff cp_in_range_def code_points)

lemma range_decimal:
  assumes "ascii_decimal dec"
  shows "cp_in_range (CHR ''1'') (CHR ''9'') x \<Longrightarrow> is_decimal dec x"
    and "cp_in_range (CHR ''0'') (CHR ''1'') x \<Longrightarrow> is_decimal dec x"
    and "cp_in_range (CHR ''0'') (CHR ''2'') x \<Longrightarrow> is_decimal dec x"
    and "cp_in_range (CHR ''1'') (CHR ''2'') x \<Longrightarrow> is_decimal dec x"
  using range_digit[of x] ascii_digit_decimal(1)[OF assms, of x] by blast+

lemma not_decimal:
  assumes "ascii_decimal dec"
  shows "\<not> is_decimal dec dot" and "\<not> is_decimal dec blank"
  using table_ascii[OF assms, of 46] table_ascii[OF assms, of 32]
  by (simp_all add: is_decimal_def code_points)

lemma day_text_cases:
  assumes "ascii_decimal dec" "day_text dec w"
  obtains "list_all (is_decimal dec) w" "w \<noteq> []"
  | b where "w = [blank, b]" "cp_in_range (CHR ''1'') (CHR ''9'') b"
proof -
  have z: "is_decimal dec 48" "is_decimal dec 51"
    using ascii_digit_decimal(1)[OF assms(1), of 48] ascii_digit_decimal(1)[OF assms(1), of 51]
    by (simp_all add: ascii_digit_iff)
  from assms(2) that z show ?thesis
    unfolding day_text_iff
    by (auto simp: code_points range_decimal[OF assms(1)])
qed

lemma month_text_decimal:
  assumes "ascii_decimal dec" "month_text w"
  shows "list_all (is_decimal dec) w \<and> w \<noteq> []"
proof -
  have z: "is_decimal dec 48" "is_decimal dec 49"
    using ascii_digit_decimal(1)[OF assms(1), of 48] ascii_digit_decimal(1)[OF assms(1), of 49]
    by (simp_all add: ascii_digit_iff)
  from assms(2) z show ?thesis
    unfolding month_text_iff
    by (auto simp: code_points range_decimal[OF assms(1)])
qed

lemma decimal_no_dot: "ascii_decimal dec \<Longrightarrow> list_all (is_decimal dec) w \<Longrightarrow> dot \<notin> set w"
  using not_decimal(1) by (auto simp: list_all_iff)

lemma day_text_no_dot:
  assumes "ascii_decimal dec" "day_text dec w"
  shows "dot \<notin> set w"
proof (rule day_text_cases[OF assms])
  assume "list_all (is_decimal dec) w"
  then show ?thesis by (rule decimal_no_dot[OF assms(1)])
next
  fix b assume w: "w = [blank, b]" "cp_in_range (CHR ''1'') (CHR ''9'') b"
  then show ?thesis
    by (simp add: cp_in_range_def code_points)
qed

lemma month_text_no_dot: "ascii_decimal dec \<Longrightarrow> month_text w \<Longrightarrow> dot \<notin> set w"
  using month_text_decimal decimal_no_dot by blast

lemma split_at_first:
  "c \<notin> set a \<Longrightarrow> c \<notin> set a' \<Longrightarrow> a @ c # x = a' @ c # x' \<Longrightarrow> a = a' \<and> x = x'"
proof (induction a arbitrary: a')
  case Nil
  then show ?case by (cases a') auto
next
  case (Cons y a)
  then show ?case by (cases a') auto
qed

lemma format_match_unique:
  assumes t: "ascii_decimal dec"
    and "(a, b, c, r) \<in> set (format_match dec s)" and "(a', b', c', r') \<in> set (format_match dec s)"
  shows "a = a' \<and> b = b' \<and> c = c' \<and> r = r'"
proof -
  from assms have
    1: "day_text dec a" "month_text b" "year_text dec c" "s = a @ dot # (b @ dot # (c @ r))" and
    2: "day_text dec a'" "month_text b'" "year_text dec c'" "s = a' @ dot # (b' @ dot # (c' @ r'))"
    by (simp_all add: format_match_iff)
  from 1(4) 2(4) have e1: "a @ dot # (b @ dot # (c @ r)) = a' @ dot # (b' @ dot # (c' @ r'))"
    by simp
  from split_at_first[OF day_text_no_dot[OF t 1(1)] day_text_no_dot[OF t 2(1)] e1]
  have a: "a = a'" and e2: "b @ dot # (c @ r) = b' @ dot # (c' @ r')"
    by simp_all
  from split_at_first[OF month_text_no_dot[OF t 1(2)] month_text_no_dot[OF t 2(2)] e2]
  have b: "b = b'" and e3: "c @ r = c' @ r'"
    by simp_all
  have "length c = length c'"
    using 1(3) 2(3) by (simp add: year_text_def)
  with e3 have "c = c' \<and> r = r'"
    by simp
  with a b show ?thesis by simp
qed

lemma format_match_first:
  assumes t: "ascii_decimal dec" and m: "(a, b, c, r) \<in> set (format_match dec s)"
  shows "\<exists>rest. format_match dec s = (a, b, c, r) # rest"
proof (cases "format_match dec s")
  case Nil
  with m show ?thesis by simp
next
  case (Cons x rest)
  obtain a' b' c' r' where x: "x = (a', b', c', r')" by (cases x) auto
  with Cons have "(a', b', c', r') \<in> set (format_match dec s)" by simp
  from format_match_unique[OF t m this] x Cons show ?thesis by simp
qed

lemma dropWhile_none: "\<forall>c \<in> set w. \<not> P c \<Longrightarrow> dropWhile P w = w"
  by (cases w) auto

lemma strip_decimal:
  assumes "ascii_decimal dec" "list_all (is_decimal dec) w"
  shows "rev (dropWhile (\<lambda>x. x = blank) (rev (dropWhile (\<lambda>x. x = blank) w))) = w"
proof -
  have n: "\<forall>c \<in> set w. \<not> c = blank"
    using assms not_decimal(2) by (auto simp: list_all_iff)
  then have "dropWhile (\<lambda>x. x = blank) w = w"
    by (rule dropWhile_none)
  moreover from n have "\<forall>c \<in> set (rev w). \<not> c = blank"
    by simp
  then have "dropWhile (\<lambda>x. x = blank) (rev w) = rev w"
    by (rule dropWhile_none)
  ultimately show ?thesis by simp
qed

lemma year_text_decimal: "year_text dec w \<Longrightarrow> list_all (is_decimal dec) w \<and> w \<noteq> []"
  by (auto simp: year_text_def)

lemma py_int_decimal:
  "ascii_decimal dec \<Longrightarrow> list_all (is_decimal dec) w \<Longrightarrow> w \<noteq> [] \<Longrightarrow>
   py_int dec w = Inr (number dec w)"
  by (simp add: py_int_def strip_decimal)

lemma py_int_day:
  assumes t: "ascii_decimal dec" and w: "day_text dec w"
  shows "py_int dec w = Inr (number dec (dropWhile (\<lambda>x. x = blank) w))"
proof (rule day_text_cases[OF t w])
  assume d: "list_all (is_decimal dec) w" "w \<noteq> []"
  then have "\<forall>c \<in> set w. \<not> c = blank"
    using not_decimal(2)[OF t] by (auto simp: list_all_iff)
  then have "dropWhile (\<lambda>x. x = blank) w = w"
    by (rule dropWhile_none)
  with d show ?thesis by (simp add: py_int_decimal[OF t])
next
  fix b assume b: "w = [blank, b]" "cp_in_range (CHR ''1'') (CHR ''9'') b"
  then have "b \<noteq> blank" "is_decimal dec b"
    using range_digit(1) ascii_digit_decimal(1)[OF t] not_decimal(2)[OF t] by blast+
  with b show ?thesis
    by (simp add: py_int_def)
qed

lemma date_new_iff: "date_new y m d = Inr a \<longleftrightarrow> is_ymd y m d \<and> a = \<lparr>year = y, month = m, day = d\<rparr>"
  by (auto simp: date_new_def is_ymd_def)

lemma date_new_Inl: "(\<exists>e. date_new y m d = Inl e) \<longleftrightarrow> \<not> is_ymd y m d"
  by (auto simp: date_new_def is_ymd_def)

lemma strptime_unicode_iff:
  assumes t: "ascii_decimal dec"
  shows "strptime_unicode dec s = Inr dt \<longleftrightarrow>
     (\<exists>a b c. s = a @ dot # b @ dot # c \<and> day_text dec a \<and> month_text b \<and> year_text dec c \<and>
        date_new (number dec c) (number dec b) (number dec (dropWhile (\<lambda>x. x = blank) a)) = Inr dt)"
proof
  assume ok: "strptime_unicode dec s = Inr dt"
  then obtain a b c rest xs where f: "format_match dec s = (a, b, c, rest) # xs"
    by (auto simp: strptime_unicode_def split: list.splits)
  then have "(a, b, c, rest) \<in> set (format_match dec s)" by simp
  then have w: "day_text dec a" "month_text b" "year_text dec c" "s = a @ dot # b @ dot # c @ rest"
    by (simp_all add: format_match_iff)
  have i: "py_int dec a = Inr (number dec (dropWhile (\<lambda>x. x = blank) a))"
      "py_int dec b = Inr (number dec b)" "py_int dec c = Inr (number dec c)"
    using w by (simp_all add: py_int_day[OF t] py_int_decimal[OF t] month_text_decimal[OF t]
        year_text_decimal)
  from ok f i have "rest = []"
     "date_new (number dec c) (number dec b) (number dec (dropWhile (\<lambda>x. x = blank) a)) = Inr dt"
    by (auto simp: strptime_unicode_def split: if_splits)
  with w show "\<exists>a b c. s = a @ dot # b @ dot # c \<and> day_text dec a \<and> month_text b \<and>
        year_text dec c \<and>
        date_new (number dec c) (number dec b) (number dec (dropWhile (\<lambda>x. x = blank) a)) = Inr dt"
    by auto
next
  assume "\<exists>a b c. s = a @ dot # b @ dot # c \<and> day_text dec a \<and> month_text b \<and>
        year_text dec c \<and>
        date_new (number dec c) (number dec b) (number dec (dropWhile (\<lambda>x. x = blank) a)) = Inr dt"
  then obtain a b c where w: "s = a @ dot # b @ dot # c" "day_text dec a" "month_text b"
      "year_text dec c"
     and d: "date_new (number dec c) (number dec b) (number dec (dropWhile (\<lambda>x. x = blank) a)) = Inr dt"
    by blast
  then have "(a, b, c, []) \<in> set (format_match dec s)"
    by (simp add: format_match_iff)
  then obtain xs where f: "format_match dec s = (a, b, c, []) # xs"
    using format_match_first[OF t] by blast
  have i: "py_int dec a = Inr (number dec (dropWhile (\<lambda>x. x = blank) a))"
      "py_int dec b = Inr (number dec b)" "py_int dec c = Inr (number dec c)"
    using w by (simp_all add: py_int_day[OF t] py_int_decimal[OF t] month_text_decimal[OF t]
        year_text_decimal)
  show "strptime_unicode dec s = Inr dt"
    using f i d by (simp add: strptime_unicode_def)
qed

subsection \<open>The strings that Birthday accepts\<close>

lemma Birthday_iff: "Birthday raw = Inr raw \<longleftrightarrow> (\<exists>dt. strptime raw = Inr dt)"
  by (auto simp: Birthday_def split: sum.splits)

lemma Birthday_unicode_iff:
  "Birthday_unicode dec raw = Inr raw \<longleftrightarrow> (\<exists>dt. strptime_unicode dec raw = Inr dt)"
  by (auto simp: Birthday_unicode_def split: sum.splits)

lemma Birthday_unicode_cases:
  "Birthday_unicode dec raw = Inr raw \<or>
   Birthday_unicode dec raw = Inl (ValueError ''Invalid date format. Use DD.MM.YYYY'')"
  by (simp add: Birthday_unicode_def split: sum.splits)

lemma Birthday_latin1:
  "Birthday raw = Inr raw \<longleftrightarrow> Birthday_unicode latin1_decimal (ustr raw) = Inr (ustr raw)"
  by (simp add: Birthday_iff Birthday_unicode_iff strptime_def)

lemma Birthday_texts:
  assumes "ascii_decimal dec"
  shows "Birthday_unicode dec raw = Inr raw \<longleftrightarrow>
     (\<exists>a b c. raw = a @ dot # b @ dot # c \<and> day_text dec a \<and> month_text b \<and> year_text dec c \<and>
        is_ymd (number dec c) (number dec b) (number dec (dropWhile (\<lambda>x. x = blank) a)))"
  unfolding Birthday_unicode_iff strptime_unicode_iff[OF assms] date_new_iff by blast

lemma spec_date_format_iff:
  "spec_date_format raw \<longleftrightarrow>
     (\<exists>d1 d2 m1 m2 y1 y2 y3 y4. raw = [d1, d2, dot, m1, m2, dot, y1, y2, y3, y4] \<and>
        ascii_digit d1 \<and> ascii_digit d2 \<and> ascii_digit m1 \<and> ascii_digit m2 \<and>
        ascii_digit y1 \<and> ascii_digit y2 \<and> ascii_digit y3 \<and> ascii_digit y4)"
proof
  assume f: "spec_date_format raw"
  then have "length raw = 10" by (simp add: spec_date_format_def)
  then obtain d1 d2 p m1 m2 q y1 y2 y3 y4 where r: "raw = [d1, d2, p, m1, m2, q, y1, y2, y3, y4]"
    by (auto simp: length_Suc_conv numeral_eq_Suc)
  with f show "\<exists>d1 d2 m1 m2 y1 y2 y3 y4. raw = [d1, d2, dot, m1, m2, dot, y1, y2, y3, y4] \<and>
        ascii_digit d1 \<and> ascii_digit d2 \<and> ascii_digit m1 \<and> ascii_digit m2 \<and>
        ascii_digit y1 \<and> ascii_digit y2 \<and> ascii_digit y3 \<and> ascii_digit y4"
    by (simp add: spec_date_format_def)
next
  assume "\<exists>d1 d2 m1 m2 y1 y2 y3 y4. raw = [d1, d2, dot, m1, m2, dot, y1, y2, y3, y4] \<and>
        ascii_digit d1 \<and> ascii_digit d2 \<and> ascii_digit m1 \<and> ascii_digit m2 \<and>
        ascii_digit y1 \<and> ascii_digit y2 \<and> ascii_digit y3 \<and> ascii_digit y4"
  then show "spec_date_format raw"
    by (auto simp: spec_date_format_def)
qed

lemma number_ascii:
  "ascii_decimal dec \<Longrightarrow> list_all ascii_digit w \<Longrightarrow> number dec w = ascii_number w"
proof -
  assume t: "ascii_decimal dec" and w: "list_all ascii_digit w"
  have "foldl (\<lambda>n x. 10 * n + digit_value dec x) k w = foldl (\<lambda>n x. 10 * n + (int x - 48)) k w" for k
    using w by (induction w arbitrary: k) (simp_all add: ascii_digit_decimal(2)[OF t])
  then show ?thesis by (simp add: number_def ascii_number_def)
qed

lemma ascii_number2: "ascii_number [a, b] = 10 * (int a - 48) + (int b - 48)"
  by (simp add: ascii_number_def)

lemma days_in_month_le: "days_in_month y m \<le> 31"
  by (simp add: days_in_month_def)

lemma two_digit_day:
  assumes t: "ascii_decimal dec" and "ascii_digit a" "ascii_digit b" "1 \<le> ascii_number [a, b]"
    "ascii_number [a, b] \<le> 31"
  shows "day_text dec [a, b]"
proof -
  have "is_decimal dec b" using assms by (simp add: ascii_digit_decimal(1))
  with assms(2-) show ?thesis
    unfolding day_text_iff ascii_number2 ascii_digit_iff cp_in_range_def code_points
    by simp linarith
qed

lemma two_digit_month:
  assumes "ascii_digit a" "ascii_digit b" "1 \<le> ascii_number [a, b]" "ascii_number [a, b] \<le> 12"
  shows "month_text [a, b]"
  using assms unfolding month_text_iff ascii_number2 ascii_digit_iff cp_in_range_def code_points
  by simp linarith

lemma exact_format_accepts:
  assumes t: "ascii_decimal dec" and f: "spec_date_format raw"
  shows "Birthday_unicode dec raw = Inr raw \<longleftrightarrow> spec_real_date raw"
proof -
  from f obtain d1 d2 m1 m2 y1 y2 y3 y4 where
    r: "raw = [d1, d2, dot, m1, m2, dot, y1, y2, y3, y4]" and
    d: "ascii_digit d1" "ascii_digit d2" and
    m: "ascii_digit m1" "ascii_digit m2" and
    y: "ascii_digit y1" "ascii_digit y2" "ascii_digit y3" "ascii_digit y4"
    unfolding spec_date_format_iff by blast
  let ?d = "[d1, d2]" and ?m = "[m1, m2]" and ?y = "[y1, y2, y3, y4]"
  have s: "spec_real_date raw = is_ymd (ascii_number ?y) (ascii_number ?m) (ascii_number ?d)"
    by (simp add: spec_real_date_def r)
  have n: "number dec ?y = ascii_number ?y" "number dec ?m = ascii_number ?m"
      "number dec ?d = ascii_number ?d"
    using d m y by (simp_all add: number_ascii[OF t])
  have yt: "year_text dec ?y"
    using y by (simp add: year_text_def ascii_digit_decimal(1)[OF t])
  have "d1 \<noteq> blank"
    using d(1) by (auto simp: ascii_digit_iff code_points)
  then have nb: "dropWhile (\<lambda>x. x = blank) ?d = ?d"
    by simp
  have nd: "dot \<notin> set ?d" "dot \<notin> set ?m"
    using d m by (auto simp: ascii_digit_iff code_points)
  show ?thesis
  proof
    assume "Birthday_unicode dec raw = Inr raw"
    then obtain a b c where
      w: "raw = a @ dot # b @ dot # c" "day_text dec a" "month_text b" "year_text dec c" and
      v: "is_ymd (number dec c) (number dec b) (number dec (dropWhile (\<lambda>x. x = blank) a))"
      unfolding Birthday_texts[OF t] by blast
    have e1: "a @ dot # (b @ dot # c) = ?d @ dot # (?m @ dot # ?y)"
      using w(1) r by simp
    from split_at_first[OF day_text_no_dot[OF t w(2)] nd(1) e1]
    have a: "a = ?d" and e2: "b @ dot # c = ?m @ dot # ?y"
      by simp_all
    from split_at_first[OF month_text_no_dot[OF t w(3)] nd(2) e2]
    have "b = ?m" "c = ?y"
      by simp_all
    with a v nb n show "spec_real_date raw"
      by (simp add: s)
  next
    assume "spec_real_date raw"
    then have v: "is_ymd (ascii_number ?y) (ascii_number ?m) (ascii_number ?d)"
      by (simp add: s)
    then have "1 \<le> ascii_number ?d" "ascii_number ?d \<le> 31" "1 \<le> ascii_number ?m"
        "ascii_number ?m \<le> 12"
      using days_in_month_le[of "ascii_number ?y" "ascii_number ?m"] by (simp_all add: is_ymd_def)
    then have "day_text dec ?d" "month_text ?m"
      using d m by (simp_all add: two_digit_day[OF t] two_digit_month)
    moreover have "raw = ?d @ dot # ?m @ dot # ?y"
      by (simp add: r)
    moreover have "is_ymd (number dec ?y) (number dec ?m) (number dec (dropWhile (\<lambda>x. x = blank) ?d))"
      using v n nb by simp
    ultimately show "Birthday_unicode dec raw = Inr raw"
      unfolding Birthday_texts[OF t] using yt by blast
  qed
qed

text \<open>
  Claim C4, as the code has it. For every table of decimal digits that is right on the
  ASCII code points, and every string \<open>raw\<close> of any code points: \<^verbatim>\<open>Birthday(raw)\<close>
  returns exactly when \<open>raw\<close> is a day, a dot, a month, a dot and a year, where the day
  is one of \<^verbatim>\<open>3[0-1]\<close>, \<^verbatim>\<open>[1-2]\d\<close>, \<^verbatim>\<open>0[1-9]\<close>, \<^verbatim>\<open>[1-9]\<close> and a blank
  before \<^verbatim>\<open>[1-9]\<close>, the month one of \<^verbatim>\<open>1[0-2]\<close>, \<^verbatim>\<open>0[1-9]\<close> and \<^verbatim>\<open>[1-9]\<close>,
  the year four decimal digits, with \<^verbatim>\<open>\d\<close> any decimal digit of Unicode and the
  ranges ASCII, and the three numbers are a date of the calendar of the years 1 to 9999;
  every other string raises the \<^verbatim>\<open>ValueError\<close> "Invalid date format. Use
  DD.MM.YYYY". On the strings in the exact format \<^verbatim>\<open>DD.MM.YYYY\<close> of ASCII digits
  that is: exactly when the string denotes a date of the calendar.
\<close>

theorem Birthday_succeeds_iff:
  assumes "ascii_decimal dec"
  shows "(Birthday_unicode dec raw = Inr raw \<longleftrightarrow>
      (\<exists>a b c. raw = a @ dot # b @ dot # c \<and> day_text dec a \<and> month_text b \<and>
         year_text dec c \<and>
         is_ymd (number dec c) (number dec b) (number dec (dropWhile (\<lambda>x. x = blank) a)))) \<and>
   (Birthday_unicode dec raw \<noteq> Inr raw \<longrightarrow>
      Birthday_unicode dec raw = Inl (ValueError ''Invalid date format. Use DD.MM.YYYY'')) \<and>
   (spec_date_format raw \<longrightarrow> (Birthday_unicode dec raw = Inr raw \<longleftrightarrow> spec_real_date raw))"
  using Birthday_texts[OF assms, of raw] Birthday_unicode_cases[of dec raw]
    exact_format_accepts[OF assms, of raw] by blast

lemma example_table_ascii: "ascii_decimal example_table"
  by (auto simp add: ascii_decimal_def example_table_def list_all_iff)

lemma latin1_decimal_ascii: "ascii_decimal latin1_decimal"
  by (auto simp add: ascii_decimal_def latin1_decimal_def list_all_iff)

theorem Birthday_succeeds_iff_witness:
  "Birthday_unicode example_table (ustr ''29.02.2024'') = Inr (ustr ''29.02.2024'') \<and>
   spec_real_date (ustr ''29.02.2024'') \<and>
   Birthday_unicode example_table (ustr ''31.06.2024'') =
     Inl (ValueError ''Invalid date format. Use DD.MM.YYYY'') \<and>
   \<not> spec_real_date (ustr ''31.06.2024'') \<and>
   Birthday_unicode example_table arabic_indic_year = Inr arabic_indic_year \<and>
   Birthday_unicode example_table arabic_indic_day =
     Inl (ValueError ''Invalid date format. Use DD.MM.YYYY'')"
proof -
  have f: "spec_date_format (ustr ''29.02.2024'')" "spec_date_format (ustr ''31.06.2024'')"
    by code_simp+
  have r: "spec_real_date (ustr ''29.02.2024'')" "\<not> spec_real_date (ustr ''31.06.2024'')"
    by code_simp+
  have u: "Birthday_unicode example_table arabic_indic_year = Inr arabic_indic_year"
    "Birthday_unicode example_table arabic_indic_day =
       Inl (ValueError ''Invalid date format. Use DD.MM.YYYY'')"
    by code_simp+
  from Birthday_succeeds_iff[OF example_table_ascii, of "ustr ''29.02.2024''"]
    Birthday_succeeds_iff[OF example_table_ascii, of "ustr ''31.06.2024''"] f r u
  show ?thesis by blast
qed

text \<open>
  A day and a month of one digit are accepted, though the string is not in the format
  \<^verbatim>\<open>DD.MM.YYYY\<close>.
\<close>

theorem Birthday_accepts_short_day_and_month:
  "Birthday ''1.6.2024'' = Inr ''1.6.2024'' \<and>
   Birthday_unicode example_table (ustr ''1.6.2024'') = Inr (ustr ''1.6.2024'') \<and>
   \<not> spec_date_format (ustr ''1.6.2024'')"
  by code_simp

section \<open>The calendar\<close>

subsection \<open>Day numbers\<close>

lemma div_step:
  fixes y k :: int
  assumes "0 < k"
  shows "y div k = (y - 1) div k + (if y mod k = 0 then 1 else 0)"
proof (cases "y mod k = 0")
  case True
  then have y: "y = k * (y div k)" by auto
  have "y - 1 = k * (y div k - 1) + (k - 1)"
    using y by (simp add: algebra_simps)
  then have "(y - 1) div k = y div k - 1"
    using assms by (intro int_div_pos_eq[of _ _ _ "k - 1"]) auto
  with True show ?thesis by simp
next
  case False
  have "0 \<le> y mod k" "y mod k < k"
    using assms by simp_all
  with False have r: "0 < y mod k" "y mod k < k"
    by linarith+
  have "y - 1 = k * (y div k) + (y mod k - 1)"
    by (simp add: algebra_simps)
  then have "(y - 1) div k = y div k"
    using r by (intro int_div_pos_eq[of _ _ _ "y mod k - 1"]) auto
  with False show ?thesis by simp
qed


lemma mod_400_100: "(y::int) mod 400 = 0 \<Longrightarrow> y mod 100 = 0"
proof -
  assume "y mod 400 = 0"
  moreover have "y mod 100 = y mod 400 mod 100"
    by (simp add: mod_mod_cancel)
  ultimately show ?thesis by simp
qed

lemma mod_100_4: "(y::int) mod 100 = 0 \<Longrightarrow> y mod 4 = 0"
proof -
  assume "y mod 100 = 0"
  moreover have "y mod 4 = y mod 100 mod 4"
    by (simp add: mod_mod_cancel)
  ultimately show ?thesis by simp
qed

lemma days_before_year_Suc:
  "days_before_year (y + 1) = days_before_year y + (if is_leap y then 366 else 365)"
proof -
  define a b c A B C where "a = (y - 1) div 4" and "b = (y - 1) div 100" and "c = (y - 1) div 400"
    and "A = y div 4" and "B = y div 100" and "C = y div 400"
  have 4: "A = a + (if y mod 4 = 0 then 1 else 0)"
    unfolding A_def a_def by (rule div_step) simp
  have 100: "B = b + (if y mod 100 = 0 then 1 else 0)"
    unfolding B_def b_def by (rule div_step) simp
  have 400: "C = c + (if y mod 400 = 0 then 1 else 0)"
    unfolding C_def c_def by (rule div_step) simp
  have e: "days_before_year (y + 1) = y * 365 + A - B + C"
    by (simp add: days_before_year_def A_def B_def C_def)
  have d: "days_before_year y = (y - 1) * 365 + a - b + c"
    by (simp add: days_before_year_def a_def b_def c_def)
  have s: "days_before_year (y + 1) = days_before_year y + 365 + (A - a) - (B - b) + (C - c)"
    unfolding e d by (simp add: algebra_simps)
  consider (p) "y mod 400 = 0" | (q) "y mod 400 \<noteq> 0" "y mod 100 = 0"
    | (r) "y mod 100 \<noteq> 0" "y mod 4 = 0" | (t) "y mod 4 \<noteq> 0"
    by blast
  then show ?thesis
  proof cases
    case p
    then have "y mod 100 = 0" "y mod 4 = 0" "is_leap y"
      using mod_400_100[of y] mod_100_4[of y] by (simp_all add: is_leap_def)
    with p 4 100 400 show ?thesis unfolding s by simp
  next
    case q
    then have "y mod 4 = 0" "\<not> is_leap y"
      using mod_100_4[of y] by (simp_all add: is_leap_def)
    with q 4 100 400 show ?thesis unfolding s by simp
  next
    case r
    then have "y mod 400 \<noteq> 0" "is_leap y"
      using mod_400_100[of y] by (auto simp add: is_leap_def)
    with r 4 100 400 show ?thesis unfolding s by simp
  next
    case t
    then have "y mod 100 \<noteq> 0" "y mod 400 \<noteq> 0" "\<not> is_leap y"
      using mod_400_100[of y] mod_100_4[of y] by (auto simp add: is_leap_def)
    with t 4 100 400 show ?thesis unfolding s by simp
  qed
qed

lemma days_in_month_ge: "28 \<le> days_in_month y m"
  by (simp add: days_in_month_def)

lemma days_before_month_step:
  "1 \<le> m \<Longrightarrow> days_before_month y (nat m) = days_before_month y (nat (m - 1)) + days_in_month y m"
proof -
  assume "1 \<le> m"
  then have "nat m = Suc (nat (m - 1))" "int (Suc (nat (m - 1))) = m"
    by simp_all
  then show ?thesis
    by (metis days_before_month.simps(2))
qed

lemma days_before_month_mono: "k \<le> k' \<Longrightarrow> days_before_month y k \<le> days_before_month y k'"
proof (induction k')
  case 0
  then show ?case by simp
next
  case (Suc k')
  have "0 \<le> days_in_month y (int (Suc k'))"
    using days_in_month_ge[of y "int (Suc k')"] by linarith
  with Suc show ?case
    by (cases "k = Suc k'") auto
qed

lemma days_before_month_12: "days_before_month y 12 = (if is_leap y then 366 else 365)"
  by (simp add: eval_nat_numeral days_in_month_def)


lemma days_before_year_mono: "y \<le> y' \<Longrightarrow> days_before_year y \<le> days_before_year y'"
proof (induction y' rule: int_ge_induct)
  case base
  then show ?case by simp
next
  case (step i)
  then show ?case
    by (simp add: days_before_year_Suc)
qed

lemma toordinal_in_year:
  assumes "is_date a"
  shows "days_before_year (year a) < toordinal a" and
        "toordinal a \<le> days_before_year (year a + 1)"
proof -
  from assms have m: "1 \<le> month a" "month a \<le> 12" and d: "1 \<le> day a"
      "day a \<le> days_in_month (year a) (month a)"
    by (simp_all add: is_date_def is_ymd_def)
  have "0 \<le> days_before_month (year a) (nat (month a - 1))"
    using days_before_month_mono[of 0 "nat (month a - 1)" "year a"] by simp
  with d show "days_before_year (year a) < toordinal a"
    by (simp add: toordinal_def)
  have "days_before_month (year a) (nat (month a - 1)) + day a \<le> days_before_month (year a) (nat (month a))"
    using d m by (simp add: days_before_month_step)
  also have "\<dots> \<le> days_before_month (year a) 12"
    using m by (intro days_before_month_mono) simp
  finally show "toordinal a \<le> days_before_year (year a + 1)"
    by (simp add: toordinal_def days_before_year_Suc days_before_month_12)
qed

lemma date_lt_toordinal:
  assumes "is_date a" "is_date b" "date_lt a b"
  shows "toordinal a < toordinal b"
proof -
  from assms(1) have ma: "1 \<le> month a" "month a \<le> 12" and da: "1 \<le> day a"
      "day a \<le> days_in_month (year a) (month a)"
    by (simp_all add: is_date_def is_ymd_def)
  from assms(2) have mb: "1 \<le> month b" "month b \<le> 12" and db: "1 \<le> day b"
    by (simp_all add: is_date_def is_ymd_def)
  consider (y) "year a < year b" | (m) "year a = year b" "month a < month b"
    | (d) "year a = year b" "month a = month b" "day a < day b"
    using assms(3) by (auto simp: date_lt_def)
  then show ?thesis
  proof cases
    case y
    then have "days_before_year (year a + 1) \<le> days_before_year (year b)"
      by (intro days_before_year_mono) simp
    with toordinal_in_year[OF assms(1)] toordinal_in_year[OF assms(2)] show ?thesis
      by linarith
  next
    case m
    have "days_before_month (year a) (nat (month a - 1)) + day a \<le> days_before_month (year a) (nat (month a))"
      using da ma by (simp add: days_before_month_step)
    also have "\<dots> \<le> days_before_month (year a) (nat (month b - 1))"
      using m by (intro days_before_month_mono) simp
    finally show ?thesis
      using m db by (simp add: toordinal_def)
  next
    case d
    then show ?thesis by (simp add: toordinal_def)
  qed
qed

lemma date_trichotomy: "date_lt a b \<or> a = b \<or> date_lt b a"
  by (cases a; cases b) (auto simp: date_lt_def)

lemma date_lt_iff:
  assumes "is_date a" "is_date b"
  shows "date_lt a b \<longleftrightarrow> toordinal a < toordinal b"
  using date_lt_toordinal[OF assms] date_lt_toordinal[OF assms(2,1)] date_trichotomy[of a b]
  by auto


subsection \<open>The next day, and a number of days later\<close>







section \<open>Upcoming birthdays\<close>

subsection \<open>One record, and the loop\<close>

lemma reachable_birthday_parses:
  "reachable r \<Longrightarrow> birthday r = Some b \<Longrightarrow> \<exists>bd. strptime b = Inr bd"
  using reachable_inv[of r] Birthday_iff[of b] by (simp add: record_inv_def)

lemma reachable_no_parse_error:
  "reachable r \<Longrightarrow> rollover_missing today r \<Longrightarrow>
   \<exists>b bd. birthday r = Some b \<and> strptime b = Inr bd \<and>
     is_ymd (year today) (month bd) (day bd) \<and>
     date_lt \<lparr>year = year today, month = month bd, day = day bd\<rparr> today \<and>
     \<not> is_ymd (year today + 1) (month bd) (day bd)"
  using reachable_birthday_parses[of r]
  by (auto simp: rollover_missing_def split: option.splits sum.splits)







lemma toordinal_inj: "is_date a \<Longrightarrow> is_date b \<Longrightarrow> toordinal a = toordinal b \<Longrightarrow> a = b"
  using date_lt_toordinal[of a b] date_lt_toordinal[of b a] date_trichotomy[of a b] by auto

lemma spec_upcoming_skipped:
  "birthday rec = Some b \<Longrightarrow> strptime b = Inr bd \<Longrightarrow>
   \<not> is_ymd (year today) (month bd) (day bd) \<Longrightarrow> spec_upcoming today rec out \<longleftrightarrow> out = None"
  by (simp add: spec_upcoming_def)

lemma spec_upcoming_dated:
  "birthday rec = Some b \<Longrightarrow> strptime b = Inr bd \<Longrightarrow>
   is_ymd (year today) (month bd) (day bd) \<Longrightarrow>
   spec_upcoming today rec out \<longleftrightarrow>
     (\<exists>shifted. is_date (spec_candidate today bd) \<and> is_date shifted \<and>
        toordinal shifted =
          toordinal (spec_candidate today bd) + spec_shift (spec_candidate today bd) \<and>
        out = (if spec_in_window today shifted
               then Some [(''name'', name rec), (''birthday'', strftime shifted)]
               else None))"
  by (simp add: spec_upcoming_def)

lemma spec_upcoming_parses:
  "birthday rec = Some b \<Longrightarrow> spec_upcoming today rec out \<Longrightarrow> \<exists>bd. strptime b = Inr bd"
  by (auto simp: spec_upcoming_def)

lemma spec_upcoming_functional:
  assumes 1: "spec_upcoming today rec o1" and 2: "spec_upcoming today rec o2"
  shows "o1 = o2"
proof (cases "birthday rec")
  case None
  with 1 2 show ?thesis by (simp add: spec_upcoming_def)
next
  case (Some b)
  from spec_upcoming_parses[OF Some 1] obtain bd where p: "strptime b = Inr bd"
    by blast
  show ?thesis
  proof (cases "is_ymd (year today) (month bd) (day bd)")
    case False
    from 1 2 show ?thesis
      unfolding spec_upcoming_skipped[OF Some p False] by simp
  next
    case True
    from 1 obtain s1 where s1: "is_date s1"
      "toordinal s1 = toordinal (spec_candidate today bd) + spec_shift (spec_candidate today bd)"
      "o1 = (if spec_in_window today s1
             then Some [(''name'', name rec), (''birthday'', strftime s1)] else None)"
      unfolding spec_upcoming_dated[OF Some p True] by blast
    from 2 obtain s2 where s2: "is_date s2"
      "toordinal s2 = toordinal (spec_candidate today bd) + spec_shift (spec_candidate today bd)"
      "o2 = (if spec_in_window today s2
             then Some [(''name'', name rec), (''birthday'', strftime s2)] else None)"
      unfolding spec_upcoming_dated[OF Some p True] by blast
    from s1(2) s2(2) have "toordinal s1 = toordinal s2" by simp
    from toordinal_inj[OF s1(1) s2(1) this] s1(3) s2(3) show ?thesis by simp
  qed
qed

subsection \<open>Examples\<close>

lemma strptime_examples:
  "strptime ''16.06.2020'' = Inr \<lparr>year = 2020, month = 6, day = 16\<rparr>"
  "strptime ''12.06.2020'' = Inr \<lparr>year = 2020, month = 6, day = 12\<rparr>"
  "strptime ''29.02.2000'' = Inr \<lparr>year = 2000, month = 2, day = 29\<rparr>"
  "strptime ''04.03.2000'' = Inr \<lparr>year = 2000, month = 3, day = 4\<rparr>"
  by code_simp+

lemma days_before_year_examples:
  "days_before_year 2023 = 738520" "days_before_year 2024 = 738885"
  by (simp_all add: days_before_year_def)

lemma days_before_month_5: "days_before_month y 5 = (if is_leap y then 152 else 151)"
  by (simp add: eval_nat_numeral days_in_month_def)

lemma days_before_month_2: "days_before_month y 2 = (if is_leap y then 60 else 59)"
  by (simp add: eval_nat_numeral days_in_month_def)

lemma toordinal_june_2024: "toordinal \<lparr>year = 2024, month = 6, day = d\<rparr> = 739037 + d"
  by (simp add: toordinal_def days_before_year_examples days_before_month_5 is_leap_def)

lemma toordinal_june_2023: "toordinal \<lparr>year = 2023, month = 6, day = d\<rparr> = 738671 + d"
  by (simp add: toordinal_def days_before_year_examples days_before_month_5 is_leap_def)

lemma toordinal_march_2024: "toordinal \<lparr>year = 2024, month = 3, day = d\<rparr> = 738945 + d"
  by (simp add: toordinal_def days_before_year_examples days_before_month_2 is_leap_def)

lemma weekday_examples:
  "weekday \<lparr>year = 2024, month = 6, day = 10\<rparr> = 0"
  "weekday \<lparr>year = 2024, month = 6, day = 12\<rparr> = 2"
  "weekday \<lparr>year = 2024, month = 6, day = 16\<rparr> = 6"
  "weekday \<lparr>year = 2023, month = 6, day = 12\<rparr> = 0"
  "weekday \<lparr>year = 2024, month = 3, day = 4\<rparr> = 0"
  by (simp_all add: weekday_def toordinal_june_2024 toordinal_june_2023 toordinal_march_2024)

lemma next_day_in_month:
  "d < days_in_month y m \<Longrightarrow>
   next_day \<lparr>year = y, month = m, day = d\<rparr> = Inr \<lparr>year = y, month = m, day = d + 1\<rparr>"
  by (simp add: next_day_def)

lemma add_days_examples:
  "add_days \<lparr>year = 2024, month = 6, day = 10\<rparr> 6 = Inr \<lparr>year = 2024, month = 6, day = 16\<rparr>"
  "add_days \<lparr>year = 2024, month = 6, day = 16\<rparr> 1 = Inr \<lparr>year = 2024, month = 6, day = 17\<rparr>"
  "add_days \<lparr>year = 2023, month = 6, day = 10\<rparr> 6 = Inr \<lparr>year = 2023, month = 6, day = 16\<rparr>"
  "add_days \<lparr>year = 2023, month = 3, day = 1\<rparr> 6 = Inr \<lparr>year = 2023, month = 3, day = 7\<rparr>"
  "add_days \<lparr>year = 2024, month = 3, day = 1\<rparr> 6 = Inr \<lparr>year = 2024, month = 3, day = 7\<rparr>"
  by (simp_all add: eval_nat_numeral next_day_def days_in_month_def)

lemma strftime_examples:
  "strftime \<lparr>year = 2024, month = 6, day = 12\<rparr> = ''12.06.2024''"
  "strftime \<lparr>year = 2023, month = 6, day = 12\<rparr> = ''12.06.2023''"
  "strftime \<lparr>year = 2024, month = 3, day = 4\<rparr> = ''04.03.2024''"
  by code_simp+

lemmas evaluation =
  birthday_of_record_def contact_def strptime_examples date_new_def MINYEAR_def MAXYEAR_def
  days_in_month_def is_leap_def date_lt_def date_le_def weekday_examples add_days_examples
  next_day_in_month strftime_examples






subsection \<open>The result of \<^verbatim>\<open>get_upcoming_birthdays\<close>\<close>







text \<open>
  Claim C1 fails on the code. A birthday on 29 February is skipped when its date in the
  year of \<open>today\<close> does not exist; but when that date exists and is past, the date of
  the next year is built outside the \<^verbatim>\<open>try\<close>, and the \<^verbatim>\<open>ValueError\<close> leaves
  \<^verbatim>\<open>get_upcoming_birthdays\<close>.
\<close>

theorem leap_day_rollover_raises:
  "get_upcoming_birthdays (on_day 2023 3 1) leap_book = Inr [] \<and>
   get_upcoming_birthdays (on_day 2024 3 1) leap_book =
     Inl (ValueError ''day is out of range for month'')"
  by (simp add: get_upcoming_birthdays_def date_today_def on_day_def leap_book_def evaluation)

end
